theory Spec2Isabelle
  imports Complex_Main "HOL-Library.Sublist" "HOL-Library.AList"
begin

section \<open>Python values and strings\<close>

text \<open>
  The sources are \<^verbatim>\<open>server.py\<close> (the operations behind the tool surface) and
  \<^verbatim>\<open>client.py\<close> (plan parsing and the plan executor). Python \<^verbatim>\<open>str\<close> values
  are modelled as \<^typ>\<open>string\<close>, Python integers as \<^typ>\<open>int\<close>, and an exception as
  the left summand of a sum type. The functions on text below (\<open>py_strip\<close>, \<open>py_lower\<close>,
  \<open>py_int\<close>) are those of Python on ASCII text; Python also trims and lower-cases characters
  beyond ASCII and reads digits of other scripts, so every statement about an arbitrary text
  assumes \<open>ascii_text\<close> of it.
\<close>

datatype py_exn =
    ValueError | TypeError | AttributeError | KeyError
  | JSONDecodeError | RecursionError | OperationFailure

definition ascii_text :: "string \<Rightarrow> bool" where
  "ascii_text s = list_all (\<lambda>c. (of_char c :: nat) < 128) s"

text \<open>\<^verbatim>\<open>str.isspace\<close> on ASCII: TAB, LF, VT, FF, CR, the separators FS..US and the blank.\<close>

definition is_space :: "char \<Rightarrow> bool" where
  "is_space c = (let n = (of_char c :: nat) in (9 \<le> n \<and> n \<le> 13) \<or> (28 \<le> n \<and> n \<le> 32))"

definition is_digit :: "char \<Rightarrow> bool" where
  "is_digit c = (let n = (of_char c :: nat) in 48 \<le> n \<and> n \<le> 57)"

definition digit_val :: "char \<Rightarrow> nat" where
  "digit_val c = (of_char c :: nat) - 48"

definition digit_char :: "nat \<Rightarrow> char" where
  "digit_char d = char_of (48 + d)"

text \<open>\<^verbatim>\<open>s.strip()\<close>\<close>

definition py_strip :: "string \<Rightarrow> string" where
  "py_strip s = rev (dropWhile is_space (rev (dropWhile is_space s)))"

text \<open>\<^verbatim>\<open>s.split(c)\<close> for a one-character separator: one more part than separators.\<close>

fun py_split :: "char \<Rightarrow> string \<Rightarrow> string list" where
  "py_split c [] = [[]]"
| "py_split c (x # xs) =
     (if x = c then [] # py_split c xs
      else (case py_split c xs of
              [] \<Rightarrow> [[x]]
            | p # ps \<Rightarrow> (x # p) # ps))"

text \<open>
  \<^verbatim>\<open>int(s)\<close> on a string: surrounding whitespace is removed, one sign is optional,
  then decimal digits follow, single underscores allowed between two digits. Anything else
  raises \<^verbatim>\<open>ValueError\<close> (here \<open>None\<close>), and so does a literal of more digits than the
  interpreter's cap, 4300 by default (underscores and the sign are not counted). Around an
  ASCII literal \<^verbatim>\<open>int\<close> removes TAB, LF, VT, FF, CR and the blank only: the separators
  FS..US, which \<^verbatim>\<open>strip\<close> removes, make the literal invalid.
\<close>

definition is_int_space :: "char \<Rightarrow> bool" where
  "is_int_space c = (let n = (of_char c :: nat) in (9 \<le> n \<and> n \<le> 13) \<or> n = 32)"

definition int_strip :: "string \<Rightarrow> string" where
  "int_strip s = rev (dropWhile is_int_space (rev (dropWhile is_int_space s)))"

definition max_str_digits :: nat where
  "max_str_digits = 4300"

fun group_digits :: "string \<Rightarrow> string option" where
  "group_digits [] = None"
| "group_digits [c] = (if is_digit c then Some [c] else None)"
| "group_digits (c # d # cs) =
     (if \<not> is_digit c then None
      else if d = CHR ''_'' then map_option ((#) c) (group_digits cs)
      else map_option ((#) c) (group_digits (d # cs)))"

definition dec_value :: "string \<Rightarrow> nat" where
  "dec_value ds = foldl (\<lambda>a c. 10 * a + digit_val c) 0 ds"

definition py_int :: "string \<Rightarrow> int option" where
  "py_int s =
     (case int_strip s of
        [] \<Rightarrow> None
      | c # r \<Rightarrow>
          (case group_digits (if c = CHR ''-'' \<or> c = CHR ''+'' then r else c # r) of
             None \<Rightarrow> None
           | Some ds \<Rightarrow>
               if max_str_digits < length ds then None
               else if c = CHR ''-'' then Some (- int (dec_value ds))
               else Some (int (dec_value ds))))"

text \<open>\<^verbatim>\<open>str(n)\<close> for a natural number.\<close>

fun dec :: "nat \<Rightarrow> string" where
  "dec n = (if n < 10 then [digit_char n] else dec (n div 10) @ [digit_char (n mod 10)])"

declare dec.simps [simp del]

section \<open>Duration codec (server.py)\<close>

text \<open>
  \<^verbatim>\<open>re.match(r'PT(?:(\d+)H)?(?:(\d+)M)?', s)\<close>: the match is anchored at the start only.
  An optional group matches a maximal run of digits followed by its letter, or nothing;
  giving digits back never helps, since the character after a shorter run is a digit.
  The result is the pair of captured groups, \<open>None\<close> for a group that did not take part.
\<close>

definition match_component :: "char \<Rightarrow> string \<Rightarrow> string option \<times> string" where
  "match_component tag s =
     (let ds = takeWhile is_digit s; rest = dropWhile is_digit s
      in case rest of
           [] \<Rightarrow> (None, s)
         | c # rest' \<Rightarrow> if ds \<noteq> [] \<and> c = tag then (Some ds, rest') else (None, s))"

definition re_match_duration :: "string \<Rightarrow> (string option \<times> string option) option" where
  "re_match_duration s =
     (if prefix ''PT'' s then
        (let (g1, r1) = match_component CHR ''H'' (drop 2 s);
             (g2, r2) = match_component CHR ''M'' r1
         in Some (g1, g2))
      else None)"

text \<open>\<^verbatim>\<open>int(match.group(n)) if match.group(n) else 0\<close>; \<open>None\<close> when \<^verbatim>\<open>int\<close> raises.\<close>

definition int_of_group :: "string option \<Rightarrow> int option" where
  "int_of_group g = (case g of None \<Rightarrow> Some 0 | Some ds \<Rightarrow> py_int ds)"

text \<open>The body of the \<^verbatim>\<open>try\<close> block of \<^verbatim>\<open>parse_iso_duration_to_minutes\<close>.\<close>

definition parse_duration_body :: "string \<Rightarrow> py_exn + int" where
  "parse_duration_body duration_str0 =
     (let duration_str = py_strip duration_str0 in
      if CHR '':'' \<in> set duration_str then
        (case py_split CHR '':'' duration_str of
           [p0, p1] \<Rightarrow>
             (case py_int p0 of
                None \<Rightarrow> Inl ValueError
              | Some hours \<Rightarrow>
                  (case py_int p1 of
                     None \<Rightarrow> Inl ValueError
                   | Some minutes \<Rightarrow> Inr (hours * 60 + minutes)))
         | _ \<Rightarrow> Inr 0)
      else if prefix ''PT'' duration_str then
        (case re_match_duration duration_str of
           None \<Rightarrow> Inr 0
         | Some (g1, g2) \<Rightarrow>
             (case int_of_group g1 of
                None \<Rightarrow> Inl ValueError
              | Some hours \<Rightarrow>
                  (case int_of_group g2 of
                     None \<Rightarrow> Inl ValueError
                   | Some minutes \<Rightarrow> Inr (hours * 60 + minutes))))
      else Inr 0)"

text \<open>
  The whole function: the guard on a falsy argument, then the body under
  \<^verbatim>\<open>except Exception: return 0\<close>. The argument is \<open>None\<close> or a string.
\<close>

definition parse_iso_duration_to_minutes :: "string option \<Rightarrow> py_exn + int" where
  "parse_iso_duration_to_minutes d =
     (case d of
        None \<Rightarrow> Inr 0
      | Some s \<Rightarrow>
          if s = [] then Inr 0
          else (case parse_duration_body s of
                  Inl e \<Rightarrow> Inr 0
                | Inr n \<Rightarrow> Inr n))"

text \<open>\<^verbatim>\<open>format_minutes_to_readable\<close>, for non-negative and negative totals alike
  (\<^verbatim>\<open>//\<close> and \<^verbatim>\<open>%\<close> round towards minus infinity, as \<open>div\<close> and \<open>mod\<close> on \<^typ>\<open>int\<close>).\<close>

definition py_str_int :: "int \<Rightarrow> string" where
  "py_str_int i = (if i < 0 then CHR ''-'' # dec (nat (- i)) else dec (nat i))"

definition join_space :: "string list \<Rightarrow> string" where
  "join_space ps = (case ps of [] \<Rightarrow> [] | p # qs \<Rightarrow> foldl (\<lambda>a q. a @ '' '' @ q) p qs)"

definition format_minutes_to_readable :: "int \<Rightarrow> string" where
  "format_minutes_to_readable total_minutes =
     (if total_minutes = 0 then ''No delay''
      else
        (let hours = total_minutes div 60;
             minutes = total_minutes mod 60;
             parts1 = (if hours > 0
                       then [py_str_int hours @ '' hour'' @ (if hours \<noteq> 1 then ''s'' else '''')]
                       else []);
             parts2 = (if minutes > 0
                       then parts1 @ [py_str_int minutes @ '' minute'' @ (if minutes \<noteq> 1 then ''s'' else '''')]
                       else parts1)
         in join_space parts2))"

text \<open>
  Modelled from the spec: the two persisted text forms of a duration, which the source only
  reads. The designator form is letter-tagged with an hour and a minute component
  (\<^verbatim>\<open>PT1H3M\<close>, \<^verbatim>\<open>PT0H0M\<close>); the colon form is hours and minutes, two digits at least
  each, around a colon (\<^verbatim>\<open>00:45\<close>).
\<close>

definition render_designator :: "nat \<Rightarrow> string" where
  "render_designator m = ''PT'' @ dec (m div 60) @ ''H'' @ dec (m mod 60) @ ''M''"

definition pad2 :: "nat \<Rightarrow> string" where
  "pad2 n = (if n < 10 then CHR ''0'' # dec n else dec n)"

definition render_colon :: "nat \<Rightarrow> string" where
  "render_colon m = pad2 (m div 60) @ '':'' @ pad2 (m mod 60)"

section \<open>JSON values\<close>

text \<open>
  Values decoded from JSON, as the plan, the tool arguments, the filter documents and the
  stored documents are. An object is an association list in insertion order. A number
  written without fraction or exponent is an integer; any other number is a float, and a
  finite float is modelled by its exact rational value (the infinities and NaN, which the
  decoder also accepts, are left out).
\<close>

datatype json =
    JNull
  | JBool bool
  | JInt int
  | JFloat rat
  | JStr string
  | JArr "json list"
  | JObj "(string \<times> json) list"

text \<open>Python truthiness.\<close>

fun truthy :: "json \<Rightarrow> bool" where
  "truthy JNull = False"
| "truthy (JBool b) = b"
| "truthy (JInt i) = (i \<noteq> 0)"
| "truthy (JFloat r) = (r \<noteq> 0)"
| "truthy (JStr s) = (s \<noteq> [])"
| "truthy (JArr xs) = (xs \<noteq> [])"
| "truthy (JObj kv) = (kv \<noteq> [])"

fun is_obj :: "json \<Rightarrow> bool" where
  "is_obj (JObj kv) = True"
| "is_obj _ = False"

text \<open>A list or a dict cannot be a dict key or a member of a set (\<^verbatim>\<open>TypeError\<close>).\<close>

fun hashable :: "json \<Rightarrow> bool" where
  "hashable (JArr xs) = False"
| "hashable (JObj kv) = False"
| "hashable _ = True"

text \<open>\<^verbatim>\<open>d.get(k)\<close> and \<^verbatim>\<open>d.get(k, default)\<close>.\<close>

definition dict_get_default :: "(string \<times> json) list \<Rightarrow> string \<Rightarrow> json \<Rightarrow> json" where
  "dict_get_default kv k dflt = (case map_of kv k of None \<Rightarrow> dflt | Some v \<Rightarrow> v)"

definition dict_get :: "(string \<times> json) list \<Rightarrow> string \<Rightarrow> json" where
  "dict_get kv k = dict_get_default kv k JNull"

text \<open>\<^verbatim>\<open>s.lower()\<close> on ASCII.\<close>

definition lower_char :: "char \<Rightarrow> char" where
  "lower_char c = (let n = (of_char c :: nat) in if 65 \<le> n \<and> n \<le> 90 then char_of (n + 32) else c)"

definition py_lower :: "string \<Rightarrow> string" where
  "py_lower s = map lower_char s"

text \<open>
  \<^verbatim>\<open>int(v)\<close> on a decoded value: an integer is itself, a boolean is 0 or 1, a float is
  cut towards zero, a string is parsed, a list or a dict is a \<^verbatim>\<open>TypeError\<close>, and so is
  \<^verbatim>\<open>None\<close>.
\<close>

fun py_int_json :: "json \<Rightarrow> py_exn + int" where
  "py_int_json (JInt n) = Inr n"
| "py_int_json (JBool b) = Inr (if b then 1 else 0)"
| "py_int_json (JFloat r) = Inr (if 0 \<le> r then \<lfloor>r\<rfloor> else \<lceil>r\<rceil>)"
| "py_int_json (JStr s) = (case py_int s of None \<Rightarrow> Inl ValueError | Some n \<Rightarrow> Inr n)"
| "py_int_json _ = Inl TypeError"

section \<open>Plan executor (client.py, run_query)\<close>

text \<open>
  \<^verbatim>\<open>str(v).strip().lower() != "unknown"\<close>: for a string this compares the trimmed,
  lower-cased text; the text of \<^verbatim>\<open>None\<close>, a boolean, a number, a list or a dict never
  reads \<^verbatim>\<open>unknown\<close>.
\<close>

fun is_unknown_token :: "json \<Rightarrow> bool" where
  "is_unknown_token (JStr s) = (py_lower (py_strip s) = ''unknown'')"
| "is_unknown_token _ = False"

text \<open>\<^verbatim>\<open>{k: v for k, v in args.items() if v and str(v).strip().lower() != "unknown"}\<close>\<close>

definition clean_args :: "(string \<times> json) list \<Rightarrow> (string \<times> json) list" where
  "clean_args args = filter (\<lambda>(k, v). truthy v \<and> \<not> is_unknown_token v) args"

text \<open>
  What the loop body does with one step before the tool is called: it raises, or it records
  a result without calling the tool (\<open>Skip\<close>: the raw query without a filter), or it calls
  the tool with the prepared arguments (\<open>Invoke\<close>).
\<close>

datatype step_action =
    Skip json json
  | Invoke json "(string \<times> json) list"

definition prepare_step :: "json \<Rightarrow> py_exn + step_action" where
  "prepare_step step =
     (case step of
        JObj kv \<Rightarrow>
          (let tool = dict_get kv ''tool'' in
           case dict_get_default kv ''arguments'' (JObj []) of
             JObj args0 \<Rightarrow>
               (let args = clean_args args0 in
                if tool = JStr ''raw_mongodb_query'' then
                  (let query_json = dict_get_default args ''query_json'' (JStr []) in
                   if \<not> truthy query_json then
                     Inr (Skip (JStr ''raw_mongodb_query'')
                               (JObj [(''error'', JStr ''Empty query_json'')]))
                   else
                     (case py_int_json (dict_get_default args ''limit'' (JInt 50)) of
                        Inl e \<Rightarrow> Inl e
                      | Inr n \<Rightarrow> Inr (Invoke tool (AList.update ''limit'' (JInt n) args))))
                else Inr (Invoke tool args))
           | _ \<Rightarrow> Inl AttributeError)
      | _ \<Rightarrow> Inl AttributeError)"

text \<open>
  The test after each call: the response is a dict; the candidate is its \<^verbatim>\<open>data\<close> when
  \<^verbatim>\<open>ok\<close> is truthy and \<^verbatim>\<open>data\<close> is a dict, else its entry under the tool's name when
  that is a non-empty dict, else the response itself; the run stops when the candidate's
  \<^verbatim>\<open>needs_route_selection\<close> entry is truthy.
\<close>

definition route_candidate :: "json \<Rightarrow> (string \<times> json) list \<Rightarrow> json" where
  "route_candidate tool kv =
     (if truthy (dict_get kv ''ok'') \<and> is_obj (dict_get kv ''data'') then dict_get kv ''data''
      else
        (let under_tool = (case tool of JStr t \<Rightarrow> dict_get kv t | _ \<Rightarrow> JNull) in
         if truthy under_tool \<and> is_obj under_tool then under_tool else JObj kv))"

definition needs_route_selection :: "json \<Rightarrow> json \<Rightarrow> bool" where
  "needs_route_selection tool resp =
     (case resp of
        JObj kv \<Rightarrow>
          (case route_candidate tool kv of
             JObj ckv \<Rightarrow> truthy (dict_get ckv ''needs_route_selection'')
           | _ \<Rightarrow> False)
      | _ \<Rightarrow> False)"

text \<open>
  The loop over the steps. \<open>invoke\<close> is \<^verbatim>\<open>invoke_tool\<close>, which catches every exception
  of the session and always returns a value; \<open>w\<close> is whatever the tool server and the store
  hold. The loop returns how it ended, the results collected, the calls it made to
  \<open>invoke\<close> in order, and the final \<open>w\<close>. A tool name that is a list or a dict makes
  \<^verbatim>\<open>{tool: resp}\<close> raise after the call.
\<close>

datatype loop_end = Raised py_exn | RouteSelection | Completed

type_synonym tool_call = "json \<times> (string \<times> json) list"

fun run_steps ::
  "('w \<Rightarrow> json \<Rightarrow> (string \<times> json) list \<Rightarrow> json \<times> 'w) \<Rightarrow> 'w \<Rightarrow> tool_call list \<Rightarrow>
   (json \<times> json) list \<Rightarrow> json list \<Rightarrow> loop_end \<times> (json \<times> json) list \<times> tool_call list \<times> 'w" where
  "run_steps invoke w calls results [] = (Completed, results, calls, w)"
| "run_steps invoke w calls results (step # rest) =
     (case prepare_step step of
        Inl e \<Rightarrow> (Raised e, results, calls, w)
      | Inr (Skip t r) \<Rightarrow> run_steps invoke w calls (results @ [(t, r)]) rest
      | Inr (Invoke tool args) \<Rightarrow>
          (case invoke w tool args of
             (resp, w') \<Rightarrow>
               if \<not> hashable tool then (Raised TypeError, results, calls @ [(tool, args)], w')
               else if needs_route_selection tool resp
                 then (RouteSelection, results @ [(tool, resp)], calls @ [(tool, args)], w')
               else run_steps invoke w' (calls @ [(tool, args)]) (results @ [(tool, resp)]) rest))"

text \<open>
  \<^verbatim>\<open>run_query\<close> from the plan on (the planner is an external oracle; \<open>plan\<close> is the value
  under the key \<^verbatim>\<open>plan\<close> of what \<^verbatim>\<open>plan_tools\<close> returned). The result is the dict
  returned to the caller: an error message, an exception turned into an error by the outer
  handler, the short-circuit result with \<^verbatim>\<open>needs_route_selection: True\<close>, or the plan
  and results handed to the summarizer, whose text is not modelled.
\<close>

datatype run_result =
    RunError string
  | RunRaised py_exn
  | RunRouteSelection json "(json \<times> json) list"
  | RunSummary json "(json \<times> json) list"

definition run_query_plan ::
  "('w \<Rightarrow> json \<Rightarrow> (string \<times> json) list \<Rightarrow> json \<times> 'w) \<Rightarrow> 'w \<Rightarrow> json \<Rightarrow>
   run_result \<times> tool_call list \<times> 'w" where
  "run_query_plan invoke w plan =
     (if \<not> truthy plan then (RunError ''LLM did not produce a valid tool plan.'', [], w)
      else
        (case plan of
           JArr steps \<Rightarrow>
             (case run_steps invoke w [] [] steps of
                (Raised e, results, calls, w') \<Rightarrow> (RunRaised e, calls, w')
              | (RouteSelection, results, calls, w') \<Rightarrow> (RunRouteSelection plan results, calls, w')
              | (Completed, results, calls, w') \<Rightarrow> (RunSummary plan results, calls, w'))
         | JObj kv \<Rightarrow> (RunRaised AttributeError, [], w)
         | JStr s \<Rightarrow> (RunRaised AttributeError, [], w)
         | _ \<Rightarrow> (RunRaised TypeError, [], w)))"

section \<open>Field normalizer (server.py)\<close>

text \<open>
  \<^verbatim>\<open>normalize_flight_number\<close>: \<^verbatim>\<open>None\<close> and the empty string give \<^verbatim>\<open>None\<close>, an
  integer (a boolean is one in Python) is returned as it is, anything else goes through
  \<^verbatim>\<open>int(str(x).strip())\<close>, where the text of a float, a list or a dict is never an
  integer literal.
\<close>

fun normalize_flight_number :: "json \<Rightarrow> int option" where
  "normalize_flight_number JNull = None"
| "normalize_flight_number (JInt n) = Some n"
| "normalize_flight_number (JBool b) = Some (if b then 1 else 0)"
| "normalize_flight_number (JStr s) = (if s = [] then None else py_int (py_strip s))"
| "normalize_flight_number _ = None"

subsection \<open>\<^verbatim>\<open>datetime.strptime\<close> for the formats of \<^verbatim>\<open>validate_date\<close>\<close>

text \<open>
  The library turns a format into a regular expression, matched at the start of the text
  with letter case ignored: \<^verbatim>\<open>%Y\<close> is four digits; \<^verbatim>\<open>%m\<close> is
  \<^verbatim>\<open>1[0-2]|0[1-9]|[1-9]\<close>; \<^verbatim>\<open>%d\<close> is \<^verbatim>\<open>3[0-1]|[1-2]\d|0[1-9]|[1-9]| [1-9]\<close>;
  \<^verbatim>\<open>%B\<close> and \<^verbatim>\<open>%b\<close> are the English month names and their three-letter forms; a blank
  in the format is one or more whitespace characters. Alternatives are tried in order with
  backtracking. Text left after the match, or a day the month does not have, or year 0,
  raises \<^verbatim>\<open>ValueError\<close>.
\<close>

datatype date_field = FYear | FMonth | FDay

datatype fmt_tok = TokY | TokM | TokD | TokB | TokAbbr | TokLit char | TokSpace

definition char_between :: "nat \<Rightarrow> nat \<Rightarrow> char \<Rightarrow> bool" where
  "char_between lo hi c = (lo \<le> (of_char c :: nat) \<and> (of_char c :: nat) \<le> hi)"

definition month_names :: "string list" where
  "month_names = [''january'', ''february'', ''march'', ''april'', ''may'', ''june'',
                  ''july'', ''august'', ''september'', ''october'', ''november'', ''december'']"

definition month_abbrs :: "string list" where
  "month_abbrs = map (take 3) month_names"

definition name_alts :: "string list \<Rightarrow> string \<Rightarrow> (nat \<times> string) list" where
  "name_alts names s =
     concat (map (\<lambda>(i, name).
                    if py_lower (take (length name) s) = name
                    then [(Suc i, drop (length name) s)] else [])
                 (enumerate 0 names))"

definition day_alts :: "string \<Rightarrow> (nat \<times> string) list" where
  "day_alts s =
     (case s of
        c1 # c2 # r \<Rightarrow>
          (if c1 = CHR ''3'' \<and> char_between 48 49 c2 then [(30 + digit_val c2, r)] else [])
          @ (if char_between 49 50 c1 \<and> is_digit c2 then [(10 * digit_val c1 + digit_val c2, r)] else [])
          @ (if c1 = CHR ''0'' \<and> char_between 49 57 c2 then [(digit_val c2, r)] else [])
          @ (if char_between 49 57 c1 then [(digit_val c1, c2 # r)] else [])
          @ (if c1 = CHR '' '' \<and> char_between 49 57 c2 then [(digit_val c2, r)] else [])
      | [c1] \<Rightarrow> (if char_between 49 57 c1 then [(digit_val c1, [])] else [])
      | [] \<Rightarrow> [])"

definition month_alts :: "string \<Rightarrow> (nat \<times> string) list" where
  "month_alts s =
     (case s of
        c1 # c2 # r \<Rightarrow>
          (if c1 = CHR ''1'' \<and> char_between 48 50 c2 then [(10 + digit_val c2, r)] else [])
          @ (if c1 = CHR ''0'' \<and> char_between 49 57 c2 then [(digit_val c2, r)] else [])
          @ (if char_between 49 57 c1 then [(digit_val c1, c2 # r)] else [])
      | [c1] \<Rightarrow> (if char_between 49 57 c1 then [(digit_val c1, [])] else [])
      | [] \<Rightarrow> [])"

definition year_alts :: "string \<Rightarrow> (nat \<times> string) list" where
  "year_alts s =
     (if 4 \<le> length s \<and> list_all is_digit (take 4 s) then [(dec_value (take 4 s), drop 4 s)] else [])"

definition space_alts :: "string \<Rightarrow> string list" where
  "space_alts s = map (\<lambda>k. drop k s) (rev [1..<Suc (length (takeWhile is_space s))])"

fun tok_alts :: "fmt_tok \<Rightarrow> string \<Rightarrow> ((date_field \<times> nat) list \<times> string) list" where
  "tok_alts TokY s = map (\<lambda>(v, r). ([(FYear, v)], r)) (year_alts s)"
| "tok_alts TokM s = map (\<lambda>(v, r). ([(FMonth, v)], r)) (month_alts s)"
| "tok_alts TokD s = map (\<lambda>(v, r). ([(FDay, v)], r)) (day_alts s)"
| "tok_alts TokB s = map (\<lambda>(v, r). ([(FMonth, v)], r)) (name_alts month_names s)"
| "tok_alts TokAbbr s = map (\<lambda>(v, r). ([(FMonth, v)], r)) (name_alts month_abbrs s)"
| "tok_alts (TokLit c) s = (case s of [] \<Rightarrow> [] | x # r \<Rightarrow> if x = c then [([], r)] else [])"
| "tok_alts TokSpace s = map (\<lambda>r. ([], r)) (space_alts s)"

fun match_toks :: "fmt_tok list \<Rightarrow> string \<Rightarrow> ((date_field \<times> nat) list \<times> string) option" where
  "match_toks [] s = Some ([], s)"
| "match_toks (t # ts) s =
     (case List.map_filter
             (\<lambda>(caps, r). map_option (\<lambda>(caps', r'). (caps @ caps', r')) (match_toks ts r))
             (tok_alts t s) of
        [] \<Rightarrow> None
      | m # _ \<Rightarrow> Some m)"

definition is_leap :: "nat \<Rightarrow> bool" where
  "is_leap y = (y mod 4 = 0 \<and> (y mod 100 \<noteq> 0 \<or> y mod 400 = 0))"

definition days_in_month :: "nat \<Rightarrow> nat \<Rightarrow> nat" where
  "days_in_month y m =
     (if m = 2 then (if is_leap y then 29 else 28)
      else if m = 4 \<or> m = 6 \<or> m = 9 \<or> m = 11 then 30 else 31)"

definition valid_date :: "nat \<Rightarrow> nat \<Rightarrow> nat \<Rightarrow> bool" where
  "valid_date y m d = (1 \<le> y \<and> y \<le> 9999 \<and> 1 \<le> m \<and> m \<le> 12 \<and> 1 \<le> d \<and> d \<le> days_in_month y m)"

definition strptime :: "string \<Rightarrow> fmt_tok list \<Rightarrow> (nat \<times> nat \<times> nat) option" where
  "strptime s fmt =
     (case match_toks fmt s of
        None \<Rightarrow> None
      | Some (caps, rest) \<Rightarrow>
          if rest \<noteq> [] then None
          else
            (let y = (case map_of caps FYear of None \<Rightarrow> 1900 | Some v \<Rightarrow> v);
                 m = (case map_of caps FMonth of None \<Rightarrow> 1 | Some v \<Rightarrow> v);
                 d = (case map_of caps FDay of None \<Rightarrow> 1 | Some v \<Rightarrow> v)
             in if valid_date y m d then Some (y, m, d) else None))"

text \<open>\<^verbatim>\<open>dt.strftime("%Y-%m-%d")\<close> with the C library of Linux: month and day have two
  digits, the year is written without padding, so a year below 1000 has fewer than four.\<close>

definition strftime_ymd :: "nat \<times> nat \<times> nat \<Rightarrow> string" where
  "strftime_ymd dt = (case dt of (y, m, d) \<Rightarrow> dec y @ ''-'' @ pad2 m @ ''-'' @ pad2 d)"

definition date_formats :: "fmt_tok list list" where
  "date_formats =
     [[TokY, TokLit CHR ''-'', TokM, TokLit CHR ''-'', TokD],
      [TokD, TokLit CHR ''-'', TokM, TokLit CHR ''-'', TokY],
      [TokY, TokLit CHR ''/'', TokM, TokLit CHR ''/'', TokD],
      [TokD, TokLit CHR ''/'', TokM, TokLit CHR ''/'', TokY],
      [TokB, TokSpace, TokD, TokLit CHR '','', TokSpace, TokY],
      [TokD, TokSpace, TokB, TokSpace, TokY],
      [TokAbbr, TokSpace, TokD, TokLit CHR '','', TokSpace, TokY],
      [TokD, TokSpace, TokAbbr, TokSpace, TokY]]"

fun try_formats :: "string \<Rightarrow> fmt_tok list list \<Rightarrow> string option" where
  "try_formats s [] = None"
| "try_formats s (fmt # fmts) =
     (case strptime s fmt of
        Some dt \<Rightarrow> Some (strftime_ymd dt)
      | None \<Rightarrow> try_formats s fmts)"

definition validate_date :: "string \<Rightarrow> string option" where
  "validate_date date_str = (if date_str = [] then None else try_formats date_str date_formats)"

section \<open>Query builder (server.py, make_query)\<close>

definition make_query ::
  "string \<Rightarrow> int option \<Rightarrow> string option \<Rightarrow> string option \<Rightarrow> string option \<Rightarrow> (string \<times> json) list" where
  "make_query carrier flight_number date_of_origin startStation endStation =
     (if carrier \<noteq> [] then [(''flightLegState.carrier'', JStr carrier)] else [])
     @ (case flight_number of None \<Rightarrow> [] | Some n \<Rightarrow> [(''flightLegState.flightNumber'', JInt n)])
     @ (case date_of_origin of None \<Rightarrow> [] | Some d \<Rightarrow>
          if d \<noteq> [] then [(''flightLegState.dateOfOrigin'', JStr d)] else [])
     @ (case startStation of None \<Rightarrow> [] | Some x \<Rightarrow>
          if x \<noteq> [] then [(''flightLegState.startStation'', JStr x)] else [])
     @ (case endStation of None \<Rightarrow> [] | Some x \<Rightarrow>
          if x \<noteq> [] then [(''flightLegState.endStation'', JStr x)] else [])"

section \<open>Responses (server.py, response_ok and response_error)\<close>

text \<open>
  A tool returns the success envelope with its payload or the error envelope with a message
  and a code. \<open>RespRaised\<close> stands for an exception that leaves the tool uncaught.
\<close>

datatype response =
    RespOk json
  | RespError string int
  | RespRaised py_exn

text \<open>The envelope as the client decodes it.\<close>

fun response_json :: "response \<Rightarrow> json" where
  "response_json (RespOk d) = JObj [(''ok'', JBool True), (''data'', d)]"
| "response_json (RespError msg code) =
     JObj [(''ok'', JBool False), (''error'', JObj [(''message'', JStr msg), (''code'', JInt code)])]"
| "response_json (RespRaised e) = JNull"

text \<open>The text of an exception raised by the program or the interpreter (\<^verbatim>\<open>str(e)\<close>) is
  never empty; its class name stands for it.\<close>

fun exn_text :: "py_exn \<Rightarrow> string" where
  "exn_text ValueError = ''ValueError''"
| "exn_text TypeError = ''TypeError''"
| "exn_text AttributeError = ''AttributeError''"
| "exn_text KeyError = ''KeyError''"
| "exn_text JSONDecodeError = ''JSONDecodeError''"
| "exn_text RecursionError = ''RecursionError''"
| "exn_text OperationFailure = ''OperationFailure''"

section \<open>Candidate resolver (server.py)\<close>

text \<open>
  The document store is outside the program. For the lookups it is three functions:
  \<open>find_meta query\<close> is what the cursor
  \<^verbatim>\<open>col.find(query, proj).sort("flightLegState.scheduledStartTime", 1)\<close> yields, in that
  order and before \<^verbatim>\<open>limit\<close>, or the text \<^verbatim>\<open>str(e)\<close> of the exception the driver raised,
  which may be empty (obtaining the client and the two \<^verbatim>\<open>count_documents\<close> calls before
  the cursor included); \<open>find_one_oid\<close> and \<open>find_one_str\<close> are
  \<^verbatim>\<open>col.find_one\<close> on \<^verbatim>\<open>{"_id": ObjectId(doc_id)}\<close> and on \<^verbatim>\<open>{"_id": doc_id}\<close> under a
  projection, where an identifier that is no ObjectId makes the first raise.
\<close>

record raw_doc =
  rd_id :: string
  rd_body :: "(string \<times> json) list"

record leg_store =
  find_meta :: "(string \<times> json) list \<Rightarrow> string + raw_doc list"
  find_one_oid :: "string \<Rightarrow> string list \<Rightarrow> py_exn + (string \<times> json) list option"
  find_one_str :: "string \<Rightarrow> string list \<Rightarrow> py_exn + (string \<times> json) list option"

record candidate =
  doc_id :: string
  startStation :: json
  endStation :: json
  scheduledStartTime :: json
  seqNumber :: json
  flightStatus :: json

type_synonym flight_key = "json \<times> json \<times> json \<times> json \<times> json"

text \<open>\<^verbatim>\<open>fl = d.get("flightLegState", {}) or {}\<close>; a later \<^verbatim>\<open>fl.get\<close> raises when \<open>fl\<close> is
  no dict.\<close>

definition leg_state :: "raw_doc \<Rightarrow> py_exn + (string \<times> json) list" where
  "leg_state d =
     (let v = dict_get_default (rd_body d) ''flightLegState'' (JObj []) in
      if \<not> truthy v then Inr []
      else (case v of JObj fl \<Rightarrow> Inr fl | _ \<Rightarrow> Inl AttributeError))"

text \<open>
  The tuple used as the member of \<^verbatim>\<open>seen\<close>. Python compares \<^verbatim>\<open>True\<close>, \<^verbatim>\<open>1\<close> and
  \<^verbatim>\<open>1.0\<close> as equal (and \<^verbatim>\<open>False\<close>, \<^verbatim>\<open>0\<close> and \<^verbatim>\<open>0.0\<close>), so a boolean and a float
  with an integer value are keyed as that integer; a list or a dict inside the tuple makes
  the membership test raise.
\<close>

fun key_norm :: "json \<Rightarrow> json" where
  "key_norm (JBool b) = JInt (if b then 1 else 0)"
| "key_norm (JFloat r) = (if of_int \<lfloor>r\<rfloor> = r then JInt \<lfloor>r\<rfloor> else JFloat r)"
| "key_norm v = v"

definition unique_key :: "(string \<times> json) list \<Rightarrow> flight_key" where
  "unique_key fl =
     (key_norm (dict_get fl ''carrier''),
      key_norm (dict_get fl ''flightNumber''),
      key_norm (dict_get fl ''dateOfOrigin''),
      key_norm (dict_get fl ''startStation''),
      key_norm (dict_get fl ''endStation''))"

definition key_hashable :: "flight_key \<Rightarrow> bool" where
  "key_hashable k = (case k of (a, b, c, d, e) \<Rightarrow>
     hashable a \<and> hashable b \<and> hashable c \<and> hashable d \<and> hashable e)"

definition candidate_of :: "raw_doc \<Rightarrow> (string \<times> json) list \<Rightarrow> candidate" where
  "candidate_of d fl =
     \<lparr> doc_id = rd_id d,
       startStation = dict_get fl ''startStation'',
       endStation = dict_get fl ''endStation'',
       scheduledStartTime = dict_get fl ''scheduledStartTime'',
       seqNumber = dict_get fl ''seqNumber'',
       flightStatus = dict_get fl ''flightStatus'' \<rparr>"

text \<open>The \<^verbatim>\<open>async for d in cursor\<close> loop of \<^verbatim>\<open>_find_matching_doc_meta\<close>.\<close>

fun meta_loop ::
  "nat \<Rightarrow> flight_key set \<Rightarrow> candidate list \<Rightarrow> raw_doc list \<Rightarrow> py_exn + candidate list" where
  "meta_loop limit seen docs [] = Inr docs"
| "meta_loop limit seen docs (d # ds) =
     (case leg_state d of
        Inl e \<Rightarrow> Inl e
      | Inr fl \<Rightarrow>
          if \<not> key_hashable (unique_key fl) then Inl TypeError
          else if unique_key fl \<in> seen then meta_loop limit seen docs ds
          else if limit \<le> length (docs @ [candidate_of d fl]) then Inr (docs @ [candidate_of d fl])
          else meta_loop limit (insert (unique_key fl) seen) (docs @ [candidate_of d fl]) ds)"

text \<open>\<^verbatim>\<open>cursor.limit(n)\<close>: the store reads \<open>0\<close> as no limit.\<close>

definition cursor_limit :: "nat \<Rightarrow> 'a list \<Rightarrow> 'a list" where
  "cursor_limit n xs = (if n = 0 then xs else take n xs)"

record meta =
  m_count :: nat
  m_documents :: "candidate list"
  m_error :: "string option"

text \<open>\<^verbatim>\<open>_find_matching_doc_meta\<close>: every exception ends in the dict with count 0 and the
  text of the exception under \<^verbatim>\<open>error\<close>.\<close>

definition find_matching_doc_meta :: "leg_store \<Rightarrow> (string \<times> json) list \<Rightarrow> nat \<Rightarrow> meta" where
  "find_matching_doc_meta st query limit =
     (case find_meta st query of
        Inl txt \<Rightarrow> \<lparr> m_count = 0, m_documents = [], m_error = Some txt \<rparr>
      | Inr raws \<Rightarrow>
          (case meta_loop limit {} [] (cursor_limit (limit * 2) raws) of
             Inl e \<Rightarrow> \<lparr> m_count = 0, m_documents = [], m_error = Some (exn_text e) \<rparr>
           | Inr docs \<Rightarrow> \<lparr> m_count = length docs, m_documents = docs, m_error = None \<rparr>))"

text \<open>\<^verbatim>\<open>result.pop("_id", None); result.pop("_class", None)\<close>\<close>

definition pop_ids :: "(string \<times> json) list \<Rightarrow> (string \<times> json) list" where
  "pop_ids r = AList.delete ''_class'' (AList.delete ''_id'' r)"

text \<open>
  \<^verbatim>\<open>_get_document_by_id\<close>: the ObjectId lookup first, whose exceptions and empty answers
  fall through to the string lookup; every exception of the second gives \<^verbatim>\<open>None\<close>.
\<close>

definition get_document_by_id ::
  "leg_store \<Rightarrow> string \<Rightarrow> string list \<Rightarrow> (string \<times> json) list option" where
  "get_document_by_id st did proj =
     (case (case find_one_oid st did proj of
              Inr (Some r) \<Rightarrow> if r \<noteq> [] then Some (pop_ids r) else None
            | _ \<Rightarrow> None) of
        Some r \<Rightarrow> Some r
      | None \<Rightarrow>
          (case find_one_str st did proj of
             Inr (Some r) \<Rightarrow> if r \<noteq> [] then Some (pop_ids r) else None
           | _ \<Rightarrow> None))"

definition candidate_json :: "candidate \<Rightarrow> json" where
  "candidate_json c =
     JObj [(''doc_id'', JStr (doc_id c)),
           (''startStation'', startStation c),
           (''endStation'', endStation c),
           (''scheduledStartTime'', scheduledStartTime c),
           (''seqNumber'', seqNumber c),
           (''flightStatus'', flightStatus c)]"

definition route_selection_payload :: "nat \<Rightarrow> candidate list \<Rightarrow> (string \<times> json) list \<Rightarrow> json" where
  "route_selection_payload count docs query =
     JObj [(''needs_route_selection'', JBool True),
           (''count'', JInt (int count)),
           (''matches'', JArr (map candidate_json docs)),
           (''original_query'', JObj query)]"

text \<open>
  The block that ends every single-flight lookup (in \<^verbatim>\<open>get_flight_basic_info\<close>, lines
  380 to 398): the meta lookup with \<^verbatim>\<open>limit=50\<close>, the test \<^verbatim>\<open>if meta.get("error")\<close>,
  which an empty error text does not pass, then the decision on the count.
\<close>

definition resolve_lookup ::
  "leg_store \<Rightarrow> (string \<times> json) list \<Rightarrow> string list \<Rightarrow> string \<Rightarrow> response" where
  "resolve_lookup st query projection not_found_msg =
     (let meta = find_matching_doc_meta st query 50 in
      case (case m_error meta of None \<Rightarrow> None | Some txt \<Rightarrow> if txt = [] then None else Some txt) of
        Some txt \<Rightarrow> RespError (''DB error: '' @ txt) 500
      | None \<Rightarrow>
          (let count = m_count meta in
           if count = 0 then RespError not_found_msg 404
           else if count = 1 then
             (case m_documents meta of
                [] \<Rightarrow> RespRaised KeyError
              | c # cs \<Rightarrow>
                  (case get_document_by_id st (doc_id c) projection of
                     None \<Rightarrow> RespError ''Document not found'' 404
                   | Some full_doc \<Rightarrow>
                       if full_doc = [] then RespError ''Document not found'' 404
                       else RespOk (JObj full_doc)))
           else RespOk (route_selection_payload count (m_documents meta) query)))"

definition basic_info_projection :: "string list" where
  "basic_info_projection =
     map (\<lambda>f. ''flightLegState.'' @ f)
       [''carrier'', ''flightNumber'', ''suffix'', ''dateOfOrigin'', ''seqNumber'',
        ''startStation'', ''endStation'', ''startStationICAO'', ''endStationICAO'',
        ''scheduledStartTime'', ''scheduledEndTime'', ''flightStatus'', ''operationalStatus'',
        ''flightType'', ''blockTimeSch'', ''blockTimeActual'', ''flightHoursActual'',
        ''isOTPFlight'', ''isOTPAchieved'', ''isOTPConsidered'', ''isOTTFlight'',
        ''isOTTAchievedFlight'', ''turnTimeFlightBeforeActual'', ''turnTimeFlightBeforeSch'']"

definition equipment_projection :: "string list" where
  "equipment_projection =
     map (\<lambda>f. ''flightLegState.'' @ f)
       [''carrier'', ''flightNumber'', ''dateOfOrigin'', ''equipment.plannedAircraftType'',
        ''equipment.aircraft'', ''equipment.aircraftConfiguration'',
        ''equipment.aircraftRegistration'', ''equipment.assignedAircraftTypeIATA'',
        ''equipment.assignedAircraftTypeICAO'', ''equipment.assignedAircraftTypeIndigo'',
        ''equipment.assignedAircraftConfiguration'', ''equipment.tailLock'',
        ''equipment.onwardFlight'', ''equipment.actualOnwardFlight'']"

text \<open>\<^verbatim>\<open>get_flight_basic_info\<close>: the date is checked before the query is built.\<close>

definition get_flight_basic_info ::
  "leg_store \<Rightarrow> string \<Rightarrow> string \<Rightarrow> string \<Rightarrow> string option \<Rightarrow> string option \<Rightarrow> response" where
  "get_flight_basic_info st carrier flight_number date_of_origin start_station end_station =
     (let fn = (if flight_number \<noteq> [] then normalize_flight_number (JStr flight_number) else None);
          dob = (if date_of_origin \<noteq> [] then validate_date date_of_origin else None)
      in if date_of_origin \<noteq> [] \<and> (dob = None \<or> dob = Some [])
         then RespError ''Invalid date_of_origin format. Expected YYYY-MM-DD or common date formats'' 400
         else resolve_lookup st (make_query carrier fn dob start_station end_station)
                basic_info_projection ''No matching document found.'')"

text \<open>\<^verbatim>\<open>get_equipment_info\<close>: the same normalisation, with no test on the date.\<close>

definition get_equipment_info ::
  "leg_store \<Rightarrow> string \<Rightarrow> string \<Rightarrow> string \<Rightarrow> string option \<Rightarrow> string option \<Rightarrow> response" where
  "get_equipment_info st carrier flight_number date_of_origin start_station end_station =
     (let fn = (if flight_number \<noteq> [] then normalize_flight_number (JStr flight_number) else None);
          dob = (if date_of_origin \<noteq> [] then validate_date date_of_origin else None)
      in resolve_lookup st (make_query carrier fn dob start_station end_station)
           equipment_projection ''No matching document found.'')"

section \<open>Raw filter query (server.py, raw_mongodb_query)\<close>

text \<open>
  \<open>loads\<close> is \<^verbatim>\<open>json.loads\<close>: the decoded value, or the exception it raised, which is
  \<^verbatim>\<open>JSONDecodeError\<close> on a text that is no JSON and can be another one (\<^verbatim>\<open>RecursionError\<close>
  on a text nested too deep). \<open>client\<close> is \<open>None\<close> when \<^verbatim>\<open>get_mongodb_client\<close> returns
  the handle, which sends no query, and the exception it raised otherwise. \<open>run_find\<close> is
  the cursor \<^verbatim>\<open>col.find(query, projection).sort(...).limit(limit)\<close> read to its end, or the
  exception of the driver. The function returns its response and the list of the queries it
  sent to the store.
\<close>

definition swap_quotes :: "string \<Rightarrow> string" where
  "swap_quotes text = map (\<lambda>c. if c = CHR 0x27 then CHR 0x22 else c) text"










section \<open>Filter rewriting of the aggregation path (server.py, run_aggregated_query)\<close>

text \<open>\<^verbatim>\<open>needle in haystack\<close> on strings.\<close>

fun py_contains :: "string \<Rightarrow> string \<Rightarrow> bool" where
  "py_contains needle [] = (needle = [])"
| "py_contains needle (x # xs) = (prefix needle (x # xs) \<or> py_contains needle xs)"

text \<open>
  The texts that stand for a delay of zero minutes, as the exclusion filter of the source
  lists them: two written zeros, the empty text and the absent value.
\<close>

definition zero_delay_sentinels :: "json list" where
  "zero_delay_sentinels = [JStr ''PT0H0M'', JStr ''00:00'', JStr [], JNull]"

definition delay_exclusion :: json where
  "delay_exclusion = JObj [(''$nin'', JArr [JStr ''PT0H0M'', JStr ''00:00'', JStr [], JNull])]"

definition delay_inclusion :: json where
  "delay_inclusion = JObj [(''$in'', JArr [JStr ''PT0H0M'', JStr ''00:00''])]"

text \<open>\<^verbatim>\<open>val == 0\<close>: true of the integer zero, of the float zero and of \<^verbatim>\<open>False\<close>.\<close>

fun py_eq_zero :: "json \<Rightarrow> bool" where
  "py_eq_zero (JInt i) = (i = 0)"
| "py_eq_zero (JFloat r) = (r = 0)"
| "py_eq_zero (JBool b) = (\<not> b)"
| "py_eq_zero _ = False"

text \<open>The inner loop over the operators of a delay entry: it ends at the first
  \<^verbatim>\<open>$gt: 0\<close> or \<^verbatim>\<open>$eq: 0\<close> with the replacement, or collects the other operators.\<close>

datatype delay_scan = Replaced json | Kept "(string \<times> json) list"

fun scan_delay_ops :: "(string \<times> json) list \<Rightarrow> (string \<times> json) list \<Rightarrow> delay_scan" where
  "scan_delay_ops new_conditions [] = Kept new_conditions"
| "scan_delay_ops new_conditions ((oper, val) # rest) =
     (if oper = ''$gt'' \<and> py_eq_zero val then Replaced delay_exclusion
      else if oper = ''$eq'' \<and> py_eq_zero val then Replaced delay_inclusion
      else scan_delay_ops (AList.update oper val new_conditions) rest)"

text \<open>One round of the loop over the entries of the parsed filter.\<close>

definition normalize_entry :: "(string \<times> json) list \<Rightarrow> string \<times> json \<Rightarrow> (string \<times> json) list" where
  "normalize_entry normalized_filter entry =
     (case entry of (key, val) \<Rightarrow>
        if py_contains ''flightNumber'' key then AList.update key val normalized_filter
        else if py_contains ''delays.total'' key then
          (case val of
             JObj ops \<Rightarrow>
               (case scan_delay_ops [] ops of
                  Replaced v \<Rightarrow> AList.update key v normalized_filter
                | Kept new_conditions \<Rightarrow>
                    if new_conditions \<noteq> [] \<and> map_of normalized_filter key = None
                    then AList.update key (JObj new_conditions) normalized_filter
                    else normalized_filter)
           | _ \<Rightarrow> AList.update key val normalized_filter)
        else AList.update key val normalized_filter)"

definition normalize_filter :: "(string \<times> json) list \<Rightarrow> (string \<times> json) list" where
  "normalize_filter parsed_filter = foldl normalize_entry [] parsed_filter"

text \<open>
  The match stage: the normalised filter, then the carrier and the date range of the call,
  which replace filter entries on the same paths. A filter text on which the decoder
  raises, or that does not decode to a dict (\<^verbatim>\<open>parsed_filter.keys()\<close> raises), ends the
  call with code 400 and the text of the exception.
\<close>

definition match_stage_of ::
  "(string \<Rightarrow> py_exn + json) \<Rightarrow> string \<Rightarrow> string \<Rightarrow> string \<Rightarrow> string \<Rightarrow> response + (string \<times> json) list" where
  "match_stage_of loads filter_json carrier start_date end_date =
     (case (if filter_json \<noteq> [] then
              (case loads (swap_quotes filter_json) of
                 Inr (JObj parsed_filter) \<Rightarrow> Inr (normalize_filter parsed_filter)
               | Inr other \<Rightarrow> Inl (RespError (''Invalid filter_json: '' @ exn_text AttributeError) 400)
               | Inl e \<Rightarrow> Inl (RespError (''Invalid filter_json: '' @ exn_text e) 400))
            else Inr []) of
        Inl r \<Rightarrow> Inl r
      | Inr stage0 \<Rightarrow>
          (let stage1 = (if carrier \<noteq> []
                         then AList.update ''flightLegState.carrier'' (JStr carrier) stage0
                         else stage0);
               stage2 = (if start_date \<noteq> [] \<and> end_date \<noteq> []
                         then AList.update ''flightLegState.dateOfOrigin''
                                (JObj [(''$gte'', JStr start_date), (''$lte'', JStr end_date)]) stage1
                         else stage1)
           in Inr stage2))"

section \<open>Concrete inputs\<close>

text \<open>A tool server for the executor: it counts its calls and answers the delay summary
  with the route-selection envelope, every other tool with an empty success envelope.\<close>

definition example_invoke :: "nat \<Rightarrow> json \<Rightarrow> (string \<times> json) list \<Rightarrow> json \<times> nat" where
  "example_invoke w tool args =
     (if tool = JStr ''get_delay_summary''
      then JObj [(''ok'', JBool True),
                 (''data'', JObj [(''needs_route_selection'', JBool True), (''count'', JInt 2)])]
      else JObj [(''ok'', JBool True), (''data'', JObj [(''status'', JStr ''ok'')])],
      Suc w)"

definition example_step :: "string \<Rightarrow> (string \<times> json) list \<Rightarrow> json" where
  "example_step tool args = JObj [(''tool'', JStr tool), (''arguments'', JObj args)]"

text \<open>Stored legs of flight 6E 215 on one day, and stores that answer every query with a
  given list of them.\<close>

definition example_leg :: "string \<Rightarrow> string \<Rightarrow> string \<Rightarrow> int \<Rightarrow> raw_doc" where
  "example_leg ident origin dest seq =
     \<lparr> rd_id = ident,
       rd_body = [(''flightLegState'',
                   JObj [(''carrier'', JStr ''6E''), (''flightNumber'', JInt 215),
                         (''dateOfOrigin'', JStr ''2024-06-23''),
                         (''startStation'', JStr origin), (''endStation'', JStr dest),
                         (''seqNumber'', JInt seq)])] \<rparr>"

definition example_store :: "raw_doc list \<Rightarrow> leg_store" where
  "example_store raws =
     \<lparr> find_meta = (\<lambda>query. Inr raws),
       find_one_oid = (\<lambda>ident proj.
          Inr (map_option (\<lambda>d. (''_id'', JStr (rd_id d)) # rd_body d)
                 (List.find (\<lambda>d. rd_id d = ident) raws))),
       find_one_str = (\<lambda>ident proj. Inr None) \<rparr>"

text \<open>A stored document with an identifier and nothing else.\<close>

definition bare_doc :: raw_doc where
  "bare_doc = \<lparr> rd_id = ''65f0c0ffee0123456789abcd'', rd_body = [] \<rparr>"








text \<open>A plan of three steps whose second step is the delay summary.\<close>

definition example_plan :: json where
  "example_plan =
     JArr [example_step ''health_check'' [],
           example_step ''get_delay_summary''
             [(''carrier'', JStr ''6E''), (''flight_number'', JStr ''215'')],
           example_step ''get_equipment_info'' [(''carrier'', JStr ''6E'')]]"

text \<open>
  The values the executor removes from the arguments, listed: the values Python reads as
  false (\<^verbatim>\<open>None\<close>, \<^verbatim>\<open>False\<close>, \<^verbatim>\<open>0\<close>, \<^verbatim>\<open>0.0\<close>, the empty text, list and dict) and a
  text that reads \<^verbatim>\<open>unknown\<close> once trimmed and lower-cased.
\<close>

definition dropped_value :: "json \<Rightarrow> bool" where
  "dropped_value v =
     (v \<in> {JNull, JBool False, JInt 0, JFloat 0, JStr [], JArr [], JObj []} \<or> is_unknown_token v)"

text \<open>The texts among the values of an argument list are ASCII.\<close>

definition ascii_args :: "(string \<times> json) list \<Rightarrow> bool" where
  "ascii_args args = list_all (\<lambda>(k, v). case v of JStr s \<Rightarrow> ascii_text s | _ \<Rightarrow> True) args"

section \<open>Notions for stating the parser's properties\<close>

text \<open>
  A digit run is a non-empty text of decimal digits. A text starts with a component when it
  begins with a digit run followed by the component's letter. \<open>minutes_of\<close> is the minute
  count of an hour part and a minute part as \<^verbatim>\<open>int\<close> read them, 0 when it read one of them
  not. The last constant is a minute count whose hour count has one digit more than
  \<^verbatim>\<open>int\<close> accepts.
\<close>

definition digit_run :: "string \<Rightarrow> bool" where
  "digit_run ds = (ds \<noteq> [] \<and> list_all is_digit ds)"

definition starts_with_component :: "char \<Rightarrow> string \<Rightarrow> bool" where
  "starts_with_component tag t =
     (takeWhile is_digit t \<noteq> [] \<and> (case dropWhile is_digit t of [] \<Rightarrow> False | c # r \<Rightarrow> c = tag))"

definition minutes_of :: "int option \<Rightarrow> int option \<Rightarrow> int" where
  "minutes_of h m =
     (case h of None \<Rightarrow> 0 | Some hours \<Rightarrow> (case m of None \<Rightarrow> 0 | Some minutes \<Rightarrow> hours * 60 + minutes))"

definition over_cap_minutes :: nat where
  "over_cap_minutes = 60 * 10 ^ max_str_digits"

section \<open>Notions for stating the resolver's properties\<close>

text \<open>
  The key under which the loop files a raw record (\<open>None\<close> when reading the record raises),
  the candidate it makes of it, the records that are the first of their key, and the number
  of distinct keys in a list of records.
\<close>

definition doc_key :: "raw_doc \<Rightarrow> flight_key option" where
  "doc_key d =
     (case leg_state d of
        Inl e \<Rightarrow> None
      | Inr fl \<Rightarrow> if key_hashable (unique_key fl) then Some (unique_key fl) else None)"

definition doc_candidate :: "raw_doc \<Rightarrow> candidate" where
  "doc_candidate d = (case leg_state d of Inl e \<Rightarrow> candidate_of d [] | Inr fl \<Rightarrow> candidate_of d fl)"

fun first_seen :: "flight_key option set \<Rightarrow> raw_doc list \<Rightarrow> raw_doc list" where
  "first_seen seen [] = []"
| "first_seen seen (d # ds) =
     (if doc_key d \<in> seen then first_seen seen ds
      else d # first_seen (insert (doc_key d) seen) ds)"

definition unique_key_count :: "raw_doc list \<Rightarrow> nat" where
  "unique_key_count raws = card (doc_key ` set raws)"

section \<open>Properties of the duration codec\<close>

subsection \<open>Decimal digits\<close>

lemma digit_char_props:
  assumes "d < 10"
  shows "is_digit (digit_char d)" "digit_val (digit_char d) = d"
  using assms by (simp_all add: is_digit_def digit_val_def digit_char_def Let_def)

lemma is_digit_simps:
  "is_digit c \<Longrightarrow> \<not> is_space c" 
  "is_digit c \<Longrightarrow> c \<noteq> CHR '':''"
  "is_digit c \<Longrightarrow> c \<noteq> CHR ''_''"
  "is_digit c \<Longrightarrow> c \<noteq> CHR ''-''"
  "is_digit c \<Longrightarrow> c \<noteq> CHR ''+''"
  "is_digit c \<Longrightarrow> c \<noteq> CHR ''H''"
  "is_digit c \<Longrightarrow> c \<noteq> CHR ''M''"
  by (auto simp: is_digit_def is_space_def Let_def)

lemma dec_nonempty: "dec n \<noteq> []"
  by (subst dec.simps) simp

lemma dec_digits: "c \<in> set (dec n) \<Longrightarrow> is_digit c"
proof (induction n arbitrary: c rule: dec.induct)
  case (1 n)
  show ?case
  proof (cases "n < 10")
    case True
    with "1.prems" show ?thesis by (subst (asm) dec.simps) (simp add: digit_char_props)
  next
    case False
    with "1.prems" have "c \<in> set (dec (n div 10)) \<or> c = digit_char (n mod 10)"
      by (subst (asm) dec.simps) auto
    then show ?thesis using "1.IH" False by (auto simp: digit_char_props)
  qed
qed

lemma digit_run_dec: "digit_run (dec n)"
  by (auto simp: digit_run_def dec_nonempty list_all_iff dec_digits)

lemma dec_value_snoc: "dec_value (ds @ [c]) = 10 * dec_value ds + digit_val c"
  by (simp add: dec_value_def)

lemma dec_value_dec: "dec_value (dec n) = n"
proof (induction n rule: dec.induct)
  case (1 n)
  show ?case
  proof (cases "n < 10")
    case True
    then show ?thesis by (subst dec.simps) (simp add: dec_value_def digit_char_props)
  next
    case False
    then have "dec_value (dec n) = 10 * dec_value (dec (n div 10)) + digit_val (digit_char (n mod 10))"
      by (subst dec.simps) (simp add: dec_value_snoc)
    also have "\<dots> = 10 * (n div 10) + n mod 10"
      using "1.IH" False by (simp add: digit_char_props)
    finally show ?thesis by simp
  qed
qed

lemma length_dec_le: "0 < k \<Longrightarrow> n < 10 ^ k \<Longrightarrow> length (dec n) \<le> k"
proof (induction n arbitrary: k rule: dec.induct)
  case (1 n)
  show ?case
  proof (cases "n < 10")
    case True
    with "1.prems" show ?thesis by (subst dec.simps) simp
  next
    case False
    obtain j where k: "k = Suc j" using "1.prems"(1) by (cases k) auto
    have "0 < j"
    proof (rule ccontr)
      assume "\<not> 0 < j"
      with k "1.prems"(2) False show False by simp
    qed
    moreover have "n div 10 < 10 ^ j" using "1.prems"(2) k by (simp add: div_less_iff_less_mult mult.commute)
    ultimately have "length (dec (n div 10)) \<le> j" using "1.IH"[OF False] by blast
    with False k show ?thesis by (subst dec.simps) simp
  qed
qed

lemma length_dec_gt: "10 ^ k \<le> n \<Longrightarrow> k < length (dec n)"
proof (induction k arbitrary: n)
  case 0
  then show ?case using dec_nonempty[of n] by (cases "dec n") auto
next
  case (Suc k)
  have "(10::nat) ^ 1 \<le> 10 ^ Suc k" by (rule power_increasing) simp_all
  then have "(10::nat) \<le> 10 ^ Suc k" by simp
  with Suc.prems have ge: "\<not> n < 10" by linarith
  have "10 ^ k \<le> n div 10" using Suc.prems by (simp add: less_eq_div_iff_mult_less_eq mult.commute)
  then have "k < length (dec (n div 10))" by (rule Suc.IH)
  with ge show ?case by (subst dec.simps) simp
qed

lemma group_digits_all:
  "ds \<noteq> [] \<Longrightarrow> \<forall>c\<in>set ds. is_digit c \<Longrightarrow> group_digits ds = Some ds"
  by (induction ds rule: group_digits.induct) (auto simp: is_digit_simps)

lemma py_strip_id:
  "s \<noteq> [] \<Longrightarrow> \<not> is_space (hd s) \<Longrightarrow> \<not> is_space (last s) \<Longrightarrow> py_strip s = s"
proof -
  assume a: "s \<noteq> []" "\<not> is_space (hd s)" "\<not> is_space (last s)"
  then have 1: "dropWhile is_space s = s" by (cases s) auto
  from a have "dropWhile is_space (rev s) = rev s" by (cases "rev s") (auto simp: hd_rev)
  with 1 show ?thesis by (simp add: py_strip_def)
qed

lemma int_strip_id:
  "s \<noteq> [] \<Longrightarrow> \<not> is_int_space (hd s) \<Longrightarrow> \<not> is_int_space (last s) \<Longrightarrow> int_strip s = s"
proof -
  assume a: "s \<noteq> []" "\<not> is_int_space (hd s)" "\<not> is_int_space (last s)"
  then have 1: "dropWhile is_int_space s = s" by (cases s) auto
  from a have "dropWhile is_int_space (rev s) = rev s" by (cases "rev s") (auto simp: hd_rev)
  with 1 show ?thesis by (simp add: int_strip_def)
qed

lemma is_digit_not_int_space: "is_digit c \<Longrightarrow> \<not> is_int_space c"
  by (auto simp: is_digit_def is_int_space_def Let_def)

lemma py_int_digit_run:
  assumes "digit_run ds"
  shows "py_int ds = (if max_str_digits < length ds then None else Some (int (dec_value ds)))"
proof -
  from assms have ne: "ds \<noteq> []" and dg: "\<forall>c\<in>set ds. is_digit c"
    by (auto simp: digit_run_def list_all_iff)
  then have "\<not> is_int_space (hd ds)" "\<not> is_int_space (last ds)"
    by (auto simp: is_digit_not_int_space)
  with ne have s: "int_strip ds = ds" by (simp add: int_strip_id)
  from ne obtain c r where cr: "ds = c # r" by (cases ds) auto
  with dg have "is_digit c" by simp
  then have "c \<noteq> CHR ''-''" "c \<noteq> CHR ''+''" by (auto simp: is_digit_simps)
  then show ?thesis using s cr group_digits_all[OF ne dg] by (simp add: py_int_def)
qed

lemma py_int_dec: "length (dec n) \<le> max_str_digits \<Longrightarrow> py_int (dec n) = Some (int n)"
  by (simp add: py_int_digit_run digit_run_dec dec_value_dec)

subsection \<open>Splitting and matching\<close>

lemma py_split_two:
  "c \<notin> set a \<Longrightarrow> c \<notin> set b \<Longrightarrow> py_split c (a @ c # b) = [a, b]"
proof (induction a)
  case Nil
  have "py_split c b = [b]" using Nil by (induction b) (auto)
  then show ?case by simp
next
  case (Cons x a)
  then show ?case by auto
qed

lemma py_split_length: "length (py_split c s) = Suc (length (filter (\<lambda>x. x = c) s))"
  by (induction s) (auto split: list.splits)

lemma match_component_hit:
  assumes "digit_run ds" "\<not> is_digit tag"
  shows "match_component tag (ds @ tag # rest) = (Some ds, rest)"
proof -
  from assms(1) have ne: "ds \<noteq> []" and dg: "\<forall>c\<in>set ds. is_digit c"
    by (auto simp: digit_run_def list_all_iff)
  have "takeWhile is_digit (ds @ tag # rest) = ds" using dg assms(2) by (simp add: takeWhile_append2)
  moreover have "dropWhile is_digit (ds @ tag # rest) = tag # rest" using dg assms(2) by (simp add: dropWhile_append2)
  ultimately show ?thesis using ne by (simp add: match_component_def)
qed

lemma match_component_other:
  assumes "digit_run ds" "\<not> is_digit c" "c \<noteq> tag"
  shows "match_component tag (ds @ c # rest) = (None, ds @ c # rest)"
proof -
  from assms(1) have dg: "\<forall>c\<in>set ds. is_digit c" by (auto simp: digit_run_def list_all_iff)
  have "dropWhile is_digit (ds @ c # rest) = c # rest" using dg assms(2) by (simp add: dropWhile_append2)
  then show ?thesis using assms(3) by (simp add: match_component_def)
qed

lemma match_component_miss:
  assumes "\<not> starts_with_component tag t"
  shows "match_component tag t = (None, t)"
proof (cases "dropWhile is_digit t")
  case Nil
  show ?thesis unfolding match_component_def Let_def Nil by simp
next
  case (Cons c r)
  with assms have "takeWhile is_digit t = [] \<or> c \<noteq> tag"
    by (simp add: starts_with_component_def)
  then show ?thesis unfolding match_component_def Let_def Cons by auto
qed

lemma not_digit_tags: "\<not> is_digit CHR ''H''" "\<not> is_digit CHR ''M''"
  by (simp_all add: is_digit_def)

text \<open>The four shapes of a trimmed text that begins with \<^verbatim>\<open>PT\<close>.\<close>

lemma re_match_both:
  "digit_run hs \<Longrightarrow> digit_run ms
   \<Longrightarrow> re_match_duration (''PT'' @ hs @ ''H'' @ ms @ ''M'' @ rest) = Some (Some hs, Some ms)"
  using match_component_hit[of hs "CHR ''H''" "ms @ ''M'' @ rest"]
        match_component_hit[of ms "CHR ''M''" rest]
  by (simp add: re_match_duration_def not_digit_tags)

lemma re_match_minutes:
  "digit_run ms \<Longrightarrow> re_match_duration (''PT'' @ ms @ ''M'' @ rest) = Some (None, Some ms)"
  using match_component_other[of ms "CHR ''M''" "CHR ''H''" rest]
        match_component_hit[of ms "CHR ''M''" rest]
  by (simp add: re_match_duration_def not_digit_tags)

lemma re_match_hours:
  "digit_run hs \<Longrightarrow> \<not> starts_with_component CHR ''M'' rest
   \<Longrightarrow> re_match_duration (''PT'' @ hs @ ''H'' @ rest) = Some (Some hs, None)"
  using match_component_hit[of hs "CHR ''H''" rest] match_component_miss[of "CHR ''M''" rest]
  by (simp add: re_match_duration_def not_digit_tags)

lemma re_match_none:
  "\<not> starts_with_component CHR ''H'' rest \<Longrightarrow> \<not> starts_with_component CHR ''M'' rest
   \<Longrightarrow> re_match_duration (''PT'' @ rest) = Some (None, None)"
  using match_component_miss[of "CHR ''H''" rest] match_component_miss[of "CHR ''M''" rest]
  by (simp add: re_match_duration_def)

subsection \<open>The branches of the parser\<close>

lemma parse_designator_shape:
  assumes "py_strip s = ''PT'' @ body" "CHR '':'' \<notin> set body"
      and "re_match_duration (''PT'' @ body) = Some (g1, g2)"
  shows "parse_iso_duration_to_minutes (Some s) = Inr (minutes_of (int_of_group g1) (int_of_group g2))"
proof -
  have "s \<noteq> []" using assms(1) by (auto simp: py_strip_def)
  moreover have "parse_duration_body s
        = (case int_of_group g1 of None \<Rightarrow> Inl ValueError
           | Some hours \<Rightarrow> (case int_of_group g2 of None \<Rightarrow> Inl ValueError
                            | Some minutes \<Rightarrow> Inr (hours * 60 + minutes)))"
    using assms by (simp add: parse_duration_body_def Let_def)
  ultimately show ?thesis
    by (simp add: parse_iso_duration_to_minutes_def minutes_of_def split: option.splits)
qed

lemma parse_colon_shape:
  assumes "py_strip s = a @ '':'' @ b" "CHR '':'' \<notin> set a" "CHR '':'' \<notin> set b"
  shows "parse_iso_duration_to_minutes (Some s) = Inr (minutes_of (py_int a) (py_int b))"
proof -
  have "s \<noteq> []" using assms(1) by (auto simp: py_strip_def)
  moreover have "py_split CHR '':'' (py_strip s) = [a, b]"
    using py_split_two[OF assms(2,3)] assms(1) by simp
  moreover have "CHR '':'' \<in> set (py_strip s)" using assms(1) by simp
  ultimately show ?thesis
    by (simp add: parse_iso_duration_to_minutes_def parse_duration_body_def Let_def minutes_of_def
             split: option.splits)
qed

lemma parse_many_colons:
  assumes "2 \<le> length (filter (\<lambda>c. c = CHR '':'') (py_strip s))"
  shows "parse_iso_duration_to_minutes (Some s) = Inr 0"
proof -
  have "filter (\<lambda>c. c = CHR '':'') (py_strip s) \<noteq> []" using assms by auto
  then have "CHR '':'' \<in> set (py_strip s)" by (auto simp: filter_empty_conv)
  moreover have "3 \<le> length (py_split CHR '':'' (py_strip s))"
    using assms by (simp add: py_split_length)
  ultimately show ?thesis
    by (auto simp: parse_iso_duration_to_minutes_def parse_duration_body_def Let_def
             split: list.splits)
qed

lemma parse_neither_form:
  "CHR '':'' \<notin> set (py_strip s) \<Longrightarrow> \<not> prefix ''PT'' (py_strip s)
   \<Longrightarrow> parse_iso_duration_to_minutes (Some s) = Inr 0"
  by (simp add: parse_iso_duration_to_minutes_def parse_duration_body_def Let_def)

lemma parse_returns: "\<exists>n. parse_iso_duration_to_minutes x = Inr n"
  by (auto simp: parse_iso_duration_to_minutes_def split: option.splits sum.splits)

subsection \<open>Round trip\<close>

lemma max_str_digits_pos: "0 < max_str_digits" "2 \<le> max_str_digits"
  by (simp_all add: max_str_digits_def)

lemma pad2_props:
  "digit_run (pad2 n)" "dec_value (pad2 n) = n"
  "length (dec n) \<le> max_str_digits \<Longrightarrow> length (pad2 n) \<le> max_str_digits"
proof -
  have z: "is_digit CHR ''0''" by (simp add: is_digit_def)
  show "digit_run (pad2 n)"
    using z digit_run_dec[of n] by (auto simp: pad2_def digit_run_def)
  have "dec_value (CHR ''0'' # dec n) = dec_value (dec n)" if "n < 10"
    using that by (subst (1 2) dec.simps) (simp add: dec_value_def digit_val_def digit_char_def)
  then show "dec_value (pad2 n) = n" by (simp add: pad2_def dec_value_dec)
  show "length (pad2 n) \<le> max_str_digits" if "length (dec n) \<le> max_str_digits"
  proof (cases "n < 10")
    case True
    then have "dec n = [digit_char n]" by (subst dec.simps) simp
    with True have "length (pad2 n) = 2" by (simp add: pad2_def)
    with max_str_digits_pos show ?thesis by simp
  next
    case False
    with that show ?thesis by (simp add: pad2_def)
  qed
qed

lemma digit_run_no_colon: "digit_run ds \<Longrightarrow> CHR '':'' \<notin> set ds"
  by (auto simp: digit_run_def list_all_iff dest: is_digit_simps(2))

lemma digit_run_ends: "digit_run ds \<Longrightarrow> \<not> is_space (hd ds) \<and> \<not> is_space (last ds)"
  by (auto simp: digit_run_def list_all_iff is_digit_simps)

lemma parse_rendered_designator:
  assumes "digit_run hs" "digit_run ms"
  shows "parse_iso_duration_to_minutes (Some (''PT'' @ hs @ ''H'' @ ms @ ''M''))
         = Inr (minutes_of (py_int hs) (py_int ms))"
proof -
  let ?s = "''PT'' @ hs @ ''H'' @ ms @ ''M''"
  have strip: "py_strip ?s = ''PT'' @ (hs @ ''H'' @ ms @ ''M'')"
    by (rule trans[OF py_strip_id]) (auto simp: is_space_def)
  have nc: "CHR '':'' \<notin> set (hs @ ''H'' @ ms @ ''M'')"
    using assms by (auto dest: digit_run_no_colon)
  have re: "re_match_duration (''PT'' @ (hs @ ''H'' @ ms @ ''M'')) = Some (Some hs, Some ms)"
    using re_match_both[OF assms, of "[]"] by simp
  from parse_designator_shape[OF strip nc re] show ?thesis by (simp add: int_of_group_def)
qed

lemma parse_rendered_colon:
  assumes "digit_run hs" "digit_run ms"
  shows "parse_iso_duration_to_minutes (Some (hs @ '':'' @ ms))
         = Inr (minutes_of (py_int hs) (py_int ms))"
proof -
  let ?s = "hs @ '':'' @ ms"
  have "hs \<noteq> []" "ms \<noteq> []" using assms by (auto simp: digit_run_def)
  then have "hd ?s = hd hs" "last ?s = last ms" by auto
  then have "\<not> is_space (hd ?s)" "\<not> is_space (last ?s)"
    using digit_run_ends[OF assms(1)] digit_run_ends[OF assms(2)] by auto
  then have strip: "py_strip ?s = hs @ '':'' @ ms" by (intro py_strip_id) auto
  show ?thesis
    by (rule parse_colon_shape[OF strip]) (use assms in \<open>auto dest: digit_run_no_colon\<close>)
qed

lemma short_minutes: "length (dec (m mod 60)) \<le> max_str_digits"
proof -
  have "m mod 60 < 10 ^ 2" by simp
  then have "length (dec (m mod 60)) \<le> 2" by (intro length_dec_le) auto
  with max_str_digits_pos show ?thesis by simp
qed

text \<open>
  C3 (as amended): for every minute count \<open>m\<close> below \<open>60 * 10 ^ 4300\<close>, that is, with an
  hour count of at most 4300 digits, parsing the designator form of \<open>m\<close> gives \<open>m\<close> back,
  and parsing the colon form of \<open>m\<close> gives \<open>m\<close> back. The parser is the one of the source;
  the two renderers follow the spec's description of the persisted forms.
\<close>

theorem duration_round_trip:
  "m < 60 * 10 ^ max_str_digits \<Longrightarrow>
   parse_iso_duration_to_minutes (Some (render_designator m)) = Inr (int m)
   \<and> parse_iso_duration_to_minutes (Some (render_colon m)) = Inr (int m)"
proof -
  assume "m < 60 * 10 ^ max_str_digits"
  then have "m div 60 < 10 ^ max_str_digits" by (simp add: div_less_iff_less_mult)
  then have lh: "length (dec (m div 60)) \<le> max_str_digits"
    using max_str_digits_pos by (intro length_dec_le) auto
  note lm = short_minutes[of m]
  have arith: "int (m div 60) * 60 + int (m mod 60) = int m"
    by (simp add: of_nat_div of_nat_mod)
  have "parse_iso_duration_to_minutes (Some (render_designator m))
        = Inr (minutes_of (py_int (dec (m div 60))) (py_int (dec (m mod 60))))"
    unfolding render_designator_def by (rule parse_rendered_designator) (rule digit_run_dec)+
  also have "\<dots> = Inr (int m)"
    using arith by (simp add: py_int_dec lh lm minutes_of_def)
  finally have d: "parse_iso_duration_to_minutes (Some (render_designator m)) = Inr (int m)" .
  have "parse_iso_duration_to_minutes (Some (render_colon m))
        = Inr (minutes_of (py_int (pad2 (m div 60))) (py_int (pad2 (m mod 60))))"
    unfolding render_colon_def by (rule parse_rendered_colon) (rule pad2_props(1))+
  also have "\<dots> = Inr (int m)"
    using arith pad2_props(3)[OF lh] pad2_props(3)[OF lm]
    by (simp add: py_int_digit_run pad2_props(1,2) minutes_of_def)
  finally show ?thesis using d by simp
qed

theorem duration_round_trip_witness:
  "(108::nat) < 60 * 10 ^ max_str_digits
   \<and> parse_iso_duration_to_minutes (Some (render_designator 108)) = Inr 108
   \<and> parse_iso_duration_to_minutes (Some (render_colon 108)) = Inr 108"
proof -
  have "(10::nat) ^ 1 \<le> 10 ^ max_str_digits"
    using max_str_digits_pos by (intro power_increasing) auto
  then have h: "(108::nat) < 60 * 10 ^ max_str_digits" by simp
  from duration_round_trip [OF h] h show ?thesis by simp
qed

text \<open>
  The claim as first stated fails: the hour count of \<open>60 * 10 ^ 4300\<close> minutes has 4301
  digits, \<^verbatim>\<open>int\<close> refuses it, the parser catches the exception and gives 0 for both forms.
\<close>

lemma over_cap_parts:
  "over_cap_minutes div 60 = 10 ^ max_str_digits" "over_cap_minutes mod 60 = 0"
  by (simp_all add: over_cap_minutes_def)

theorem duration_round_trip_counterexample:
  "parse_iso_duration_to_minutes (Some (render_designator over_cap_minutes)) = Inr 0
   \<and> parse_iso_duration_to_minutes (Some (render_colon over_cap_minutes)) = Inr 0
   \<and> 0 < over_cap_minutes"
proof -
  let ?h = "10 ^ max_str_digits :: nat"
  have long: "max_str_digits < length (dec ?h)" by (rule length_dec_gt) simp
  then have p1: "py_int (dec ?h) = None" by (simp add: py_int_digit_run digit_run_dec)
  have "(10::nat) ^ 1 \<le> ?h" using max_str_digits_pos by (intro power_increasing) auto
  then have "\<not> ?h < 10" by simp
  then have pad: "pad2 ?h = dec ?h" by (simp add: pad2_def)
  have "parse_iso_duration_to_minutes (Some (render_designator over_cap_minutes))
        = Inr (minutes_of (py_int (dec ?h)) (py_int (dec 0)))"
    unfolding render_designator_def over_cap_parts
    by (rule parse_rendered_designator) (rule digit_run_dec)+
  then have d: "parse_iso_duration_to_minutes (Some (render_designator over_cap_minutes)) = Inr 0"
    by (simp add: p1 minutes_of_def)
  have "parse_iso_duration_to_minutes (Some (render_colon over_cap_minutes))
        = Inr (minutes_of (py_int (pad2 ?h)) (py_int (pad2 0)))"
    unfolding render_colon_def over_cap_parts
    by (rule parse_rendered_colon) (rule pad2_props(1))+
  then have c: "parse_iso_duration_to_minutes (Some (render_colon over_cap_minutes)) = Inr 0"
    by (simp add: pad p1 minutes_of_def)
  have "0 < over_cap_minutes" by (simp add: over_cap_minutes_def)
  with d c show ?thesis by simp
qed

subsection \<open>Zero-delay sentinels\<close>

text \<open>
  C8: the parser gives 0 minutes on every member of the zero-delay sentinel set: the texts
  \<^verbatim>\<open>PT0H0M\<close> and \<^verbatim>\<open>00:00\<close>, the empty text, and the absent value.
\<close>

theorem zero_delay_sentinels_parse_to_zero:
  "parse_iso_duration_to_minutes (Some ''PT0H0M'') = Inr 0
   \<and> parse_iso_duration_to_minutes (Some ''00:00'') = Inr 0
   \<and> parse_iso_duration_to_minutes (Some []) = Inr 0
   \<and> parse_iso_duration_to_minutes None = Inr 0"
  by code_simp

subsection \<open>Totality and what the parser reads\<close>

lemma filter_dropWhile:
  "(\<And>c. P c \<Longrightarrow> \<not> Q c) \<Longrightarrow> filter P (dropWhile Q xs) = filter P xs"
  by (induction xs) auto

lemma filter_py_strip:
  assumes "\<And>c. P c \<Longrightarrow> \<not> is_space c"
  shows "filter P (py_strip s) = filter P s"
proof -
  have "filter P (py_strip s) = rev (filter P (dropWhile is_space (rev (dropWhile is_space s))))"
    by (simp add: py_strip_def rev_filter)
  also have "\<dots> = rev (filter P (rev (dropWhile is_space s)))"
    using assms by (simp add: filter_dropWhile)
  also have "\<dots> = filter P (dropWhile is_space s)" by (simp add: rev_filter)
  also have "\<dots> = filter P s" using assms by (simp add: filter_dropWhile)
  finally show ?thesis .
qed

lemma colons_py_strip:
  "filter (\<lambda>c. c = CHR '':'') (py_strip s) = filter (\<lambda>c. c = CHR '':'') s"
  by (rule filter_py_strip) (simp add: is_space_def)

lemma colon_in_py_strip: "CHR '':'' \<in> set (py_strip s) \<longleftrightarrow> CHR '':'' \<in> set s"
proof -
  have "CHR '':'' \<in> set xs \<longleftrightarrow> filter (\<lambda>c. c = CHR '':'') xs \<noteq> []" for xs
    by (auto simp: filter_empty_conv)
  then show ?thesis by (simp add: colons_py_strip)
qed

text \<open>
  C10 (as amended): the parser is total: on every argument (a text, the empty text, the
  absent value) it returns an integer and raises nothing. What it returns on an ASCII text
  is decided by the trimmed text. With no colon and a leading \<^verbatim>\<open>PT\<close>, only the leading
  components count and the text after them is ignored: an hour and a minute component give
  \<open>60h + m\<close>, a minute component alone gives \<open>m\<close>, an hour component not followed by a
  minute component gives \<open>60h\<close>, and no component gives 0. With exactly one colon, the two
  sides are read by \<^verbatim>\<open>int\<close>, signs, blanks and digit-group underscores included, and give
  \<open>60h + m\<close>, which can be negative (\<^verbatim>\<open>-1:30\<close> gives \<open>-30\<close>). A part \<^verbatim>\<open>int\<close> does not
  read (no integer literal, or more than 4300 digits) gives 0, and so do a text with two or
  more colons and a text with neither a colon nor a leading \<^verbatim>\<open>PT\<close>.
\<close>

theorem duration_parser_total:
  "(\<exists>n. parse_iso_duration_to_minutes x = Inr n)
   \<and> (ascii_text s \<and> py_strip s = ''PT'' @ hs @ ''H'' @ ms @ ''M'' @ rest
        \<and> digit_run hs \<and> digit_run ms \<and> CHR '':'' \<notin> set rest
      \<longrightarrow> parse_iso_duration_to_minutes (Some s) = Inr (minutes_of (py_int hs) (py_int ms)))
   \<and> (ascii_text s \<and> py_strip s = ''PT'' @ ms @ ''M'' @ rest
        \<and> digit_run ms \<and> CHR '':'' \<notin> set rest
      \<longrightarrow> parse_iso_duration_to_minutes (Some s) = Inr (minutes_of (Some 0) (py_int ms)))
   \<and> (ascii_text s \<and> py_strip s = ''PT'' @ hs @ ''H'' @ rest
        \<and> digit_run hs \<and> \<not> starts_with_component CHR ''M'' rest \<and> CHR '':'' \<notin> set rest
      \<longrightarrow> parse_iso_duration_to_minutes (Some s) = Inr (minutes_of (py_int hs) (Some 0)))
   \<and> (ascii_text s \<and> py_strip s = ''PT'' @ rest
        \<and> \<not> starts_with_component CHR ''H'' rest \<and> \<not> starts_with_component CHR ''M'' rest
        \<and> CHR '':'' \<notin> set rest
      \<longrightarrow> parse_iso_duration_to_minutes (Some s) = Inr 0)
   \<and> (ascii_text s \<and> py_strip s = a @ '':'' @ b \<and> CHR '':'' \<notin> set a \<and> CHR '':'' \<notin> set b
      \<longrightarrow> parse_iso_duration_to_minutes (Some s) = Inr (minutes_of (py_int a) (py_int b)))
   \<and> (ascii_text s \<and> 2 \<le> length (filter (\<lambda>c. c = CHR '':'') s)
      \<longrightarrow> parse_iso_duration_to_minutes (Some s) = Inr 0)
   \<and> (ascii_text s \<and> CHR '':'' \<notin> set s \<and> \<not> prefix ''PT'' (py_strip s)
      \<longrightarrow> parse_iso_duration_to_minutes (Some s) = Inr 0)
   \<and> parse_iso_duration_to_minutes (Some ''-1:30'') = Inr (- 30)"
proof -
  have both: "parse_iso_duration_to_minutes (Some s) = Inr (minutes_of (py_int hs) (py_int ms))"
    if "py_strip s = ''PT'' @ hs @ ''H'' @ ms @ ''M'' @ rest" "digit_run hs" "digit_run ms"
       "CHR '':'' \<notin> set rest"
  proof -
    have nc: "CHR '':'' \<notin> set (hs @ ''H'' @ ms @ ''M'' @ rest)"
      using that by (auto dest: digit_run_no_colon)
    have st: "py_strip s = ''PT'' @ (hs @ ''H'' @ ms @ ''M'' @ rest)" using that(1) by simp
    have re: "re_match_duration (''PT'' @ (hs @ ''H'' @ ms @ ''M'' @ rest)) = Some (Some hs, Some ms)"
      using re_match_both[OF that(2,3), of rest] by simp
    from parse_designator_shape[OF st nc re] show ?thesis by (simp add: int_of_group_def)
  qed
  have mins: "parse_iso_duration_to_minutes (Some s) = Inr (minutes_of (Some 0) (py_int ms))"
    if "py_strip s = ''PT'' @ ms @ ''M'' @ rest" "digit_run ms" "CHR '':'' \<notin> set rest"
  proof -
    have nc: "CHR '':'' \<notin> set (ms @ ''M'' @ rest)"
      using that by (auto dest: digit_run_no_colon)
    have st: "py_strip s = ''PT'' @ (ms @ ''M'' @ rest)" using that(1) by simp
    have re: "re_match_duration (''PT'' @ (ms @ ''M'' @ rest)) = Some (None, Some ms)"
      using re_match_minutes[OF that(2), of rest] by simp
    from parse_designator_shape[OF st nc re] show ?thesis by (simp add: int_of_group_def)
  qed
  have hours: "parse_iso_duration_to_minutes (Some s) = Inr (minutes_of (py_int hs) (Some 0))"
    if "py_strip s = ''PT'' @ hs @ ''H'' @ rest" "digit_run hs"
       "\<not> starts_with_component CHR ''M'' rest" "CHR '':'' \<notin> set rest"
  proof -
    have nc: "CHR '':'' \<notin> set (hs @ ''H'' @ rest)"
      using that by (auto dest: digit_run_no_colon)
    have st: "py_strip s = ''PT'' @ (hs @ ''H'' @ rest)" using that(1) by simp
    have re: "re_match_duration (''PT'' @ (hs @ ''H'' @ rest)) = Some (Some hs, None)"
      using re_match_hours[OF that(2,3)] by simp
    from parse_designator_shape[OF st nc re] show ?thesis by (simp add: int_of_group_def)
  qed
  have none: "parse_iso_duration_to_minutes (Some s) = Inr 0"
    if "py_strip s = ''PT'' @ rest" "\<not> starts_with_component CHR ''H'' rest"
       "\<not> starts_with_component CHR ''M'' rest" "CHR '':'' \<notin> set rest"
    using parse_designator_shape[OF that(1,4) re_match_none[OF that(2,3)]]
    by (simp add: int_of_group_def minutes_of_def)
  have colon: "parse_iso_duration_to_minutes (Some s) = Inr (minutes_of (py_int a) (py_int b))"
    if "py_strip s = a @ '':'' @ b" "CHR '':'' \<notin> set a" "CHR '':'' \<notin> set b"
    using that by (rule parse_colon_shape)
  have many: "parse_iso_duration_to_minutes (Some s) = Inr 0"
    if "2 \<le> length (filter (\<lambda>c. c = CHR '':'') s)"
    using that by (intro parse_many_colons) (simp add: colons_py_strip)
  have neither: "parse_iso_duration_to_minutes (Some s) = Inr 0"
    if "CHR '':'' \<notin> set s" "\<not> prefix ''PT'' (py_strip s)"
    using that by (intro parse_neither_form) (simp_all add: colon_in_py_strip)
  have neg: "parse_iso_duration_to_minutes (Some ''-1:30'') = Inr (- 30)"
    by code_simp
  from parse_returns[of x] both mins hours none colon many neither neg
  show ?thesis by blast
qed

text \<open>
  The claim as first stated fails: three texts in neither duration form that do not give 0.
\<close>

theorem duration_parser_total_counterexample:
  "parse_iso_duration_to_minutes (Some ''PT5Mxyz'') = Inr 5
   \<and> parse_iso_duration_to_minutes (Some ''PT1H30'') = Inr 60
   \<and> parse_iso_duration_to_minutes (Some ''1:-30'') = Inr 30"
  by code_simp

theorem duration_parser_total_witness:
  "(\<exists>n. parse_iso_duration_to_minutes None = Inr n)
   \<and> parse_iso_duration_to_minutes (Some '' PT1H30Mxyz '') = Inr 90
   \<and> parse_iso_duration_to_minutes (Some ''PT5M and more'') = Inr 5
   \<and> parse_iso_duration_to_minutes (Some ''PT2H15'') = Inr 120
   \<and> parse_iso_duration_to_minutes (Some ''PTxyz'') = Inr 0
   \<and> parse_iso_duration_to_minutes (Some ''+1: 5_0 '') = Inr 110
   \<and> parse_iso_duration_to_minutes (Some ''1:2:3'') = Inr 0
   \<and> parse_iso_duration_to_minutes (Some ''soon'') = Inr 0"
proof -
  have a1: "ascii_text '' PT1H30Mxyz '' \<and> py_strip '' PT1H30Mxyz '' = ''PT'' @ ''1'' @ ''H'' @ ''30'' @ ''M'' @ ''xyz''
            \<and> digit_run ''1'' \<and> digit_run ''30'' \<and> CHR '':'' \<notin> set ''xyz''" by code_simp
  have v1: "minutes_of (py_int ''1'') (py_int ''30'') = 90" by code_simp
  have a2: "ascii_text ''PT5M and more'' \<and> py_strip ''PT5M and more'' = ''PT'' @ ''5'' @ ''M'' @ '' and more''
            \<and> digit_run ''5'' \<and> CHR '':'' \<notin> set '' and more''" by code_simp
  have v2: "minutes_of (Some 0) (py_int ''5'') = 5" by code_simp
  have a3: "ascii_text ''PT2H15'' \<and> py_strip ''PT2H15'' = ''PT'' @ ''2'' @ ''H'' @ ''15''
            \<and> digit_run ''2'' \<and> \<not> starts_with_component CHR ''M'' ''15'' \<and> CHR '':'' \<notin> set ''15''"
    by code_simp
  have v3: "minutes_of (py_int ''2'') (Some 0) = 120" by code_simp
  have a4: "ascii_text ''PTxyz'' \<and> py_strip ''PTxyz'' = ''PT'' @ ''xyz''
            \<and> \<not> starts_with_component CHR ''H'' ''xyz'' \<and> \<not> starts_with_component CHR ''M'' ''xyz''
            \<and> CHR '':'' \<notin> set ''xyz''" by code_simp
  have a5: "ascii_text ''+1: 5_0 '' \<and> py_strip ''+1: 5_0 '' = ''+1'' @ '':'' @ '' 5_0''
            \<and> CHR '':'' \<notin> set ''+1'' \<and> CHR '':'' \<notin> set '' 5_0''" by code_simp
  have v5: "minutes_of (py_int ''+1'') (py_int '' 5_0'') = 110" by code_simp
  have a6: "ascii_text ''1:2:3'' \<and> 2 \<le> length (filter (\<lambda>c. c = CHR '':'') ''1:2:3'')" by code_simp
  have a7: "ascii_text ''soon'' \<and> CHR '':'' \<notin> set ''soon'' \<and> \<not> prefix ''PT'' (py_strip ''soon'')"
    by code_simp
  have c0: "\<exists>n. parse_iso_duration_to_minutes None = Inr n"
    using duration_parser_total [where x = None] by blast
  have "parse_iso_duration_to_minutes (Some '' PT1H30Mxyz '') = Inr (minutes_of (py_int ''1'') (py_int ''30''))"
    using duration_parser_total [where s = "'' PT1H30Mxyz ''" and hs = "''1''" and ms = "''30''" and rest = "''xyz''"] a1
    by blast
  then have c1: "parse_iso_duration_to_minutes (Some '' PT1H30Mxyz '') = Inr 90" by (simp only: v1)
  have "parse_iso_duration_to_minutes (Some ''PT5M and more'') = Inr (minutes_of (Some 0) (py_int ''5''))"
    using duration_parser_total [where s = "''PT5M and more''" and ms = "''5''" and rest = "'' and more''"] a2
    by blast
  then have c2: "parse_iso_duration_to_minutes (Some ''PT5M and more'') = Inr 5" by (simp only: v2)
  have "parse_iso_duration_to_minutes (Some ''PT2H15'') = Inr (minutes_of (py_int ''2'') (Some 0))"
    using duration_parser_total [where s = "''PT2H15''" and hs = "''2''" and rest = "''15''"] a3
    by blast
  then have c3: "parse_iso_duration_to_minutes (Some ''PT2H15'') = Inr 120" by (simp only: v3)
  have c4: "parse_iso_duration_to_minutes (Some ''PTxyz'') = Inr 0"
    using duration_parser_total [where s = "''PTxyz''" and rest = "''xyz''"] a4 by blast
  have "parse_iso_duration_to_minutes (Some ''+1: 5_0 '') = Inr (minutes_of (py_int ''+1'') (py_int '' 5_0''))"
    using duration_parser_total [where s = "''+1: 5_0 ''" and a = "''+1''" and b = "'' 5_0''"] a5
    by blast
  then have c5: "parse_iso_duration_to_minutes (Some ''+1: 5_0 '') = Inr 110" by (simp only: v5)
  have c6: "parse_iso_duration_to_minutes (Some ''1:2:3'') = Inr 0"
    using duration_parser_total [where s = "''1:2:3''"] a6 by blast
  have c7: "parse_iso_duration_to_minutes (Some ''soon'') = Inr 0"
    using duration_parser_total [where s = "''soon''"] a7 by blast
  from c0 c1 c2 c3 c4 c5 c6 c7 show ?thesis by blast
qed

section \<open>Properties of the plan executor\<close>

subsection \<open>Short circuit\<close>

lemma run_steps_short_circuit:
  assumes "run_steps invoke w calls results pre = (Completed, results1, calls1, w1)"
      and "prepare_step s = Inr (Invoke tool args)"
      and "invoke w1 tool args = (resp, w2)"
      and "hashable tool"
      and "needs_route_selection tool resp"
  shows "run_steps invoke w calls results (pre @ s # post)
         = (RouteSelection, results1 @ [(tool, resp)], calls1 @ [(tool, args)], w2)"
  using assms
proof (induction pre arbitrary: w calls results)
  case Nil
  then show ?case by simp
next
  case (Cons p ps)
  show ?case
  proof (cases "prepare_step p")
    case (Inl e)
    with Cons.prems(1) show ?thesis by simp
  next
    case (Inr act)
    show ?thesis
    proof (cases act)
      case (Skip t r)
      with Inr Cons.prems have "run_steps invoke w calls (results @ [(t, r)]) ps = (Completed, results1, calls1, w1)"
        by simp
      from Cons.IH[OF this Cons.prems(2-5)] Inr Skip show ?thesis by simp
    next
      case (Invoke t a)
      obtain r w' where inv: "invoke w t a = (r, w')" by (cases "invoke w t a")
      with Inr Invoke Cons.prems(1) have h: "hashable t" "\<not> needs_route_selection t r"
        by (auto split: if_splits)
      with Inr Invoke inv Cons.prems(1)
      have "run_steps invoke w' (calls @ [(t, a)]) (results @ [(t, r)]) ps = (Completed, results1, calls1, w1)"
        by simp
      from Cons.IH[OF this Cons.prems(2-5)] Inr Invoke inv h show ?thesis by simp
    qed
  qed
qed

lemma run_steps_single:
  assumes "run_steps invoke w [] [] [s] = (Completed, r1, c1, w1)"
  shows "length r1 = 1 \<and> length c1 \<le> 1"
proof (cases "prepare_step s")
  case (Inl e)
  with assms show ?thesis by simp
next
  case (Inr act)
  show ?thesis
  proof (cases act)
    case (Skip t r)
    with Inr assms show ?thesis by auto
  next
    case (Invoke t a)
    obtain r w' where "invoke w t a = (r, w')" by (cases "invoke w t a")
    with Inr Invoke assms show ?thesis by (auto split: if_splits)
  qed
qed

text \<open>
  C2: in a plan of three steps, when step 1 ran to its end without stopping the run and the
  call of step 2 returns a response that carries \<^verbatim>\<open>needs_route_selection\<close>, the
  executor returns the route-selection result with \<^verbatim>\<open>needs_route_selection: True\<close> and
  a result list of length 2; the calls it made are those of step 1 followed by the one of
  step 2, whatever step 3 is, so step 3 is never called.
\<close>

theorem executor_short_circuit:
  assumes step1: "run_steps invoke w [] [] [s1] = (Completed, r1, c1, w1)"
      and step2: "prepare_step s2 = Inr (Invoke (JStr t2) args2)"
      and resp2: "invoke w1 (JStr t2) args2 = (resp2, w2)"
      and ambiguous: "needs_route_selection (JStr t2) resp2"
  shows "run_query_plan invoke w (JArr [s1, s2, s3])
           = (RunRouteSelection (JArr [s1, s2, s3]) (r1 @ [(JStr t2, resp2)]),
              c1 @ [(JStr t2, args2)], w2)
         \<and> length (r1 @ [(JStr t2, resp2)]) = 2
         \<and> length (c1 @ [(JStr t2, args2)]) \<le> 2"
proof -
  have "run_steps invoke w [] [] ([s1] @ s2 # [s3])
        = (RouteSelection, r1 @ [(JStr t2, resp2)], c1 @ [(JStr t2, args2)], w2)"
    using step1 step2 resp2 _ ambiguous by (rule run_steps_short_circuit) simp
  then have "run_query_plan invoke w (JArr [s1, s2, s3])
           = (RunRouteSelection (JArr [s1, s2, s3]) (r1 @ [(JStr t2, resp2)]),
              c1 @ [(JStr t2, args2)], w2)"
    by (simp add: run_query_plan_def)
  with run_steps_single[OF step1] show ?thesis by simp
qed

theorem executor_short_circuit_witness:
  "\<exists>results calls.
     run_query_plan example_invoke 0 example_plan = (RunRouteSelection example_plan results, calls, 2)
     \<and> length results = 2 \<and> length calls = 2
     \<and> map fst calls = [JStr ''health_check'', JStr ''get_delay_summary'']"
proof -
  let ?args2 = "[(''carrier'', JStr ''6E''), (''flight_number'', JStr ''215'')]"
  let ?r1 = "[(JStr ''health_check'', JObj [(''ok'', JBool True), (''data'', JObj [(''status'', JStr ''ok'')])])]"
  let ?resp2 = "JObj [(''ok'', JBool True),
                 (''data'', JObj [(''needs_route_selection'', JBool True), (''count'', JInt 2)])]"
  have h1: "run_steps example_invoke 0 [] [] [example_step ''health_check'' []]
            = (Completed, ?r1, [(JStr ''health_check'', [])], 1)"
    by code_simp
  have h2: "prepare_step (example_step ''get_delay_summary'' ?args2)
            = Inr (Invoke (JStr ''get_delay_summary'') ?args2)"
    by code_simp
  have h3: "example_invoke 1 (JStr ''get_delay_summary'') ?args2 = (?resp2, 2)"
    by code_simp
  have h4: "needs_route_selection (JStr ''get_delay_summary'') ?resp2"
    by code_simp
  from executor_short_circuit [OF h1 h2 h3 h4, of "example_step ''get_equipment_info'' [(''carrier'', JStr ''6E'')]"]
  show ?thesis unfolding example_plan_def by simp
qed

subsection \<open>Argument cleaning\<close>

lemma dropped_value_iff: "dropped_value v \<longleftrightarrow> \<not> (truthy v \<and> \<not> is_unknown_token v)"
  by (cases v) (auto simp: dropped_value_def)

lemma clean_args_dropped: "clean_args args = filter (\<lambda>(k, v). \<not> dropped_value v) args"
  by (simp add: clean_args_def dropped_value_iff)

lemma clean_args_truthy: "map_of (clean_args args) k = Some v \<Longrightarrow> truthy v"
  by (auto simp: clean_args_def dest!: map_of_SomeD)

lemma run_steps_one_call:
  "prepare_step s = Inr (Invoke tool passed)
   \<Longrightarrow> fst (snd (snd (run_steps invoke w [] [] [s]))) = [(tool, passed)]"
  by (cases "invoke w tool passed") simp

text \<open>
  C9 (as amended): for arguments whose texts are ASCII, before a step is called the
  executor removes exactly the arguments whose value Python reads as false (\<^verbatim>\<open>None\<close>,
  \<^verbatim>\<open>False\<close>, \<^verbatim>\<open>0\<close>, \<^verbatim>\<open>0.0\<close>, the empty text, list or dict) or is a text reading
  \<^verbatim>\<open>unknown\<close> once trimmed and lower-cased, keeps the others in order and unchanged, and
  calls the tool with them; for the raw filter query with a filter it also sets \<^verbatim>\<open>limit\<close>
  to the integer value of the given limit, or to 50.
\<close>

theorem executor_argument_cleaning:
  assumes tool: "dict_get kv ''tool'' = tool"
      and args: "dict_get_default kv ''arguments'' (JObj []) = JObj args"
      and ascii: "ascii_args args"
  shows "(tool \<noteq> JStr ''raw_mongodb_query'' \<longrightarrow>
            prepare_step (JObj kv) = Inr (Invoke tool (filter (\<lambda>(k, v). \<not> dropped_value v) args))
            \<and> fst (snd (snd (run_steps invoke w [] [] [JObj kv])))
                = [(tool, filter (\<lambda>(k, v). \<not> dropped_value v) args)])
       \<and> (tool = JStr ''raw_mongodb_query''
            \<and> map_of (filter (\<lambda>(k, v). \<not> dropped_value v) args) ''query_json'' = Some q
            \<and> py_int_json (dict_get_default (filter (\<lambda>(k, v). \<not> dropped_value v) args) ''limit'' (JInt 50)) = Inr n
          \<longrightarrow>
            prepare_step (JObj kv)
              = Inr (Invoke tool (AList.update ''limit'' (JInt n) (filter (\<lambda>(k, v). \<not> dropped_value v) args)))
            \<and> fst (snd (snd (run_steps invoke w [] [] [JObj kv])))
                = [(tool, AList.update ''limit'' (JInt n) (filter (\<lambda>(k, v). \<not> dropped_value v) args))])"
proof (intro conjI impI)
  assume nr: "tool \<noteq> JStr ''raw_mongodb_query''"
  show p: "prepare_step (JObj kv) = Inr (Invoke tool (filter (\<lambda>(k, v). \<not> dropped_value v) args))"
    using tool args nr by (simp add: prepare_step_def clean_args_dropped)
  show "fst (snd (snd (run_steps invoke w [] [] [JObj kv])))
                = [(tool, filter (\<lambda>(k, v). \<not> dropped_value v) args)]"
    using p by (rule run_steps_one_call)
next
  assume h: "tool = JStr ''raw_mongodb_query''
            \<and> map_of (filter (\<lambda>(k, v). \<not> dropped_value v) args) ''query_json'' = Some q
            \<and> py_int_json (dict_get_default (filter (\<lambda>(k, v). \<not> dropped_value v) args) ''limit'' (JInt 50)) = Inr n"
  then have "truthy q" using clean_args_truthy[of args "''query_json''" q]
    by (simp add: clean_args_dropped)
  with h tool args
  show p: "prepare_step (JObj kv)
              = Inr (Invoke tool (AList.update ''limit'' (JInt n) (filter (\<lambda>(k, v). \<not> dropped_value v) args)))"
    by (simp add: prepare_step_def clean_args_dropped dict_get_default_def[of _ "''query_json''"])
  show "fst (snd (snd (run_steps invoke w [] [] [JObj kv])))
                = [(tool, AList.update ''limit'' (JInt n) (filter (\<lambda>(k, v). \<not> dropped_value v) args))]"
    using p by (rule run_steps_one_call)
qed

text \<open>
  The claim as first stated fails: the number 0 and the text \<^verbatim>\<open>" Unknown "\<close> are removed
  though neither is empty nor the literal token, and the raw filter query receives the limit
  \<^verbatim>\<open>"10"\<close> as the integer 10.
\<close>

theorem executor_argument_cleaning_counterexample:
  "prepare_step (example_step ''get_flight_basic_info''
       [(''carrier'', JStr ''6E''), (''flight_number'', JInt 0), (''startStation'', JStr '' Unknown '')])
     = Inr (Invoke (JStr ''get_flight_basic_info'') [(''carrier'', JStr ''6E'')])
   \<and> prepare_step (example_step ''raw_mongodb_query''
       [(''query_json'', JStr ''{}''), (''limit'', JStr ''10'')])
     = Inr (Invoke (JStr ''raw_mongodb_query'') [(''query_json'', JStr ''{}''), (''limit'', JInt 10)])"
  by code_simp

theorem executor_argument_cleaning_witness:
  "prepare_step (example_step ''get_fuel_summary''
       [(''carrier'', JStr ''6E''), (''endStation'', JNull), (''startStation'', JStr ''UNKNOWN''),
        (''seats'', JFloat 0)])
     = Inr (Invoke (JStr ''get_fuel_summary'') [(''carrier'', JStr ''6E'')])
   \<and> prepare_step (example_step ''raw_mongodb_query'' [(''query_json'', JStr ''{}''), (''limit'', JStr ''7'')])
     = Inr (Invoke (JStr ''raw_mongodb_query'') [(''query_json'', JStr ''{}''), (''limit'', JInt 7)])"
proof -
  let ?a1 = "[(''carrier'', JStr ''6E''), (''endStation'', JNull), (''startStation'', JStr ''UNKNOWN''),
              (''seats'', JFloat 0)]"
  let ?kv1 = "[(''tool'', JStr ''get_fuel_summary''), (''arguments'', JObj ?a1)]"
  let ?a2 = "[(''query_json'', JStr ''{}''), (''limit'', JStr ''7'')]"
  let ?kv2 = "[(''tool'', JStr ''raw_mongodb_query''), (''arguments'', JObj ?a2)]"
  let ?keep = "\<lambda>(k :: string, v). \<not> dropped_value v"
  have t1: "dict_get ?kv1 ''tool'' = JStr ''get_fuel_summary''" by code_simp
  have a1: "dict_get_default ?kv1 ''arguments'' (JObj []) = JObj ?a1" by code_simp
  have s1: "ascii_args ?a1" by code_simp
  have s2: "ascii_args ?a2" by code_simp
  have n1: "JStr ''get_fuel_summary'' \<noteq> JStr ''raw_mongodb_query''" by simp
  have f1: "filter ?keep ?a1 = [(''carrier'', JStr ''6E'')]" by code_simp
  have t2: "dict_get ?kv2 ''tool'' = JStr ''raw_mongodb_query''" by code_simp
  have a2: "dict_get_default ?kv2 ''arguments'' (JObj []) = JObj ?a2" by code_simp
  have q2: "map_of (filter ?keep ?a2) ''query_json'' = Some (JStr ''{}'')" by code_simp
  have l2: "py_int_json (dict_get_default (filter ?keep ?a2) ''limit'' (JInt 50)) = Inr 7" by code_simp
  have u2: "AList.update ''limit'' (JInt 7) (filter ?keep ?a2) = [(''query_json'', JStr ''{}''), (''limit'', JInt 7)]"
    by code_simp
  have "prepare_step (JObj ?kv1) = Inr (Invoke (JStr ''get_fuel_summary'') (filter ?keep ?a1))"
    using executor_argument_cleaning
            [where q = "JStr ''{}''" and n = 7 and invoke = example_invoke and w = 0, OF t1 a1 s1] n1
    by blast
  then have c1: "prepare_step (JObj ?kv1) = Inr (Invoke (JStr ''get_fuel_summary'') [(''carrier'', JStr ''6E'')])"
    by (simp only: f1)
  have "prepare_step (JObj ?kv2)
        = Inr (Invoke (JStr ''raw_mongodb_query'') (AList.update ''limit'' (JInt 7) (filter ?keep ?a2)))"
    using executor_argument_cleaning
            [where q = "JStr ''{}''" and n = 7 and invoke = example_invoke and w = 0, OF t2 a2 s2] q2 l2
    by blast
  then have c2: "prepare_step (JObj ?kv2)
        = Inr (Invoke (JStr ''raw_mongodb_query'') [(''query_json'', JStr ''{}''), (''limit'', JInt 7)])"
    by (simp only: u2)
  from c1 c2 show ?thesis by (simp only: example_step_def) 
qed

subsection \<open>The empty plan\<close>

text \<open>
  C5 (as amended): a plan with no steps (any plan value Python reads as false) is not
  executed: \<^verbatim>\<open>run_query\<close> calls no tool and returns the error
  \<^verbatim>\<open>LLM did not produce a valid tool plan.\<close> to the caller.
\<close>

theorem empty_plan_reports_error:
  "\<not> truthy plan
   \<Longrightarrow> run_query_plan invoke w plan = (RunError ''LLM did not produce a valid tool plan.'', [], w)"
  by (simp add: run_query_plan_def)

theorem empty_plan_reports_error_witness:
  "\<not> truthy JNull
   \<and> run_query_plan example_invoke 7 JNull = (RunError ''LLM did not produce a valid tool plan.'', [], 7)"
  using empty_plan_reports_error [of JNull example_invoke 7] by simp

text \<open>The claim as first stated fails: the empty plan yields an error to the caller.\<close>

theorem empty_plan_counterexample:
  "fst (run_query_plan example_invoke 0 (JArr [])) = RunError ''LLM did not produce a valid tool plan.''"
  by (simp add: run_query_plan_def)

section \<open>Properties of the candidate resolver\<close>

lemma doc_key_SomeD:
  "doc_key d = Some k \<Longrightarrow> \<exists>fl. leg_state d = Inr fl \<and> key_hashable (unique_key fl) \<and> unique_key fl = k
      \<and> doc_candidate d = candidate_of d fl"
  by (auto simp: doc_key_def doc_candidate_def split: sum.splits if_splits)

lemma meta_loop_step_seen:
  "doc_key d = Some k \<Longrightarrow> k \<in> seen \<Longrightarrow> meta_loop limit seen docs (d # ds) = meta_loop limit seen docs ds"
  by (auto dest!: doc_key_SomeD)

lemma meta_loop_step_new:
  "doc_key d = Some k \<Longrightarrow> k \<notin> seen \<Longrightarrow>
   meta_loop limit seen docs (d # ds) =
     (if limit \<le> Suc (length docs) then Inr (docs @ [doc_candidate d])
      else meta_loop limit (insert k seen) (docs @ [doc_candidate d]) ds)"
  by (auto dest!: doc_key_SomeD)

lemma meta_loop_all_seen:
  "\<forall>d\<in>set raws. doc_key d = Some k \<Longrightarrow> k \<in> seen \<Longrightarrow> meta_loop limit seen docs raws = Inr docs"
proof (induction raws)
  case Nil
  then show ?case by simp
next
  case (Cons d ds)
  then show ?case by (simp add: meta_loop_step_seen del: meta_loop.simps)
qed

lemma meta_loop_same_key:
  assumes "\<forall>d\<in>set (d0 # ds). doc_key d = Some k"
  shows "meta_loop limit {} [] (d0 # ds) = Inr [doc_candidate d0]"
proof -
  from assms have k0: "doc_key d0 = Some k" and rest: "\<forall>d\<in>set ds. doc_key d = Some k" by auto
  have "meta_loop limit {} [] (d0 # ds) =
     (if limit \<le> Suc 0 then Inr [doc_candidate d0]
      else meta_loop limit {k} [doc_candidate d0] ds)"
    using meta_loop_step_new[OF k0, of "{}" limit "[]" ds] by simp
  moreover have "meta_loop limit {k} [doc_candidate d0] ds = Inr [doc_candidate d0]"
    using rest by (rule meta_loop_all_seen) simp
  ultimately show ?thesis by simp
qed

lemma meta_loop_dedup:
  assumes "\<forall>d\<in>set raws. doc_key d \<noteq> None" "length docs < limit"
  shows "meta_loop limit seen docs raws
         = Inr (docs @ take (limit - length docs) (map doc_candidate (first_seen (Some ` seen) raws)))"
  using assms
proof (induction raws arbitrary: seen docs)
  case Nil
  then show ?case by simp
next
  case (Cons d ds)
  from Cons.prems obtain k where k: "doc_key d = Some k" by auto
  from Cons.prems have wf: "\<forall>d\<in>set ds. doc_key d \<noteq> None" by simp
  show ?case
  proof (cases "k \<in> seen")
    case True
    then have "doc_key d \<in> Some ` seen" using k by simp
    with True k Cons.IH[OF wf Cons.prems(2), of seen] show ?thesis
      by (simp add: meta_loop_step_seen del: meta_loop.simps)
  next
    case False
    then have nin: "doc_key d \<notin> Some ` seen" using k by auto
    have ins: "Some ` insert k seen = insert (doc_key d) (Some ` seen)" using k by simp
    show ?thesis
    proof (cases "limit \<le> Suc (length docs)")
      case True
      with Cons.prems(2) have "limit - length docs = Suc 0" by simp
      with True False k nin show ?thesis
        by (simp add: meta_loop_step_new del: meta_loop.simps)
    next
      case F2: False
      then have lt: "length (docs @ [doc_candidate d]) < limit" by simp
      have "limit - length docs = Suc (limit - length (docs @ [doc_candidate d]))"
        using F2 by simp
      with F2 False k nin Cons.IH[OF wf lt, of "insert k seen"] show ?thesis
        by (simp add: meta_loop_step_new ins del: meta_loop.simps)
    qed
  qed
qed

lemma first_seen_length: "length (first_seen seen raws) = card (doc_key ` set raws - seen)"
proof (induction raws arbitrary: seen)
  case Nil
  then show ?case by simp
next
  case (Cons d ds)
  show ?case
  proof (cases "doc_key d \<in> seen")
    case True
    then have "doc_key ` set (d # ds) - seen = doc_key ` set ds - seen" by auto
    with True Cons.IH[of seen] show ?thesis by simp
  next
    case False
    have fin: "finite (doc_key ` set ds - insert (doc_key d) seen)" by simp
    have "doc_key ` set (d # ds) - seen = insert (doc_key d) (doc_key ` set ds - insert (doc_key d) seen)"
      using False by auto
    moreover have "doc_key d \<notin> doc_key ` set ds - insert (doc_key d) seen" by simp
    ultimately have "card (doc_key ` set (d # ds) - seen) = Suc (card (doc_key ` set ds - insert (doc_key d) seen))"
      using fin by (simp del: set_simps)
    with False Cons.IH[of "insert (doc_key d) seen"] show ?thesis by simp
  qed
qed

lemma first_seen_hd: "doc_key d \<notin> seen \<Longrightarrow> first_seen seen (d # ds) = d # first_seen (insert (doc_key d) seen) ds"
  by simp

lemma find_matching_doc_meta_dedup:
  assumes store: "find_meta st query = Inr raws"
      and wf: "\<forall>d\<in>set raws. doc_key d \<noteq> None"
  shows "find_matching_doc_meta st query 50
         = \<lparr> m_count = min 50 (unique_key_count (take 100 raws)),
             m_documents = take 50 (map doc_candidate (first_seen {} (take 100 raws))),
             m_error = None \<rparr>"
proof -
  have wf': "\<forall>d\<in>set (take 100 raws). doc_key d \<noteq> None" using wf by (auto dest: in_set_takeD)
  have "meta_loop 50 {} [] (take 100 raws)
        = Inr ([] @ take (50 - length ([]::candidate list)) (map doc_candidate (first_seen (Some ` {}) (take 100 raws))))"
    using wf' by (rule meta_loop_dedup) simp
  then have ml: "meta_loop 50 {} [] (take 100 raws) = Inr (take 50 (map doc_candidate (first_seen {} (take 100 raws))))"
    by simp
  have "length (take 50 (map doc_candidate (first_seen {} (take 100 raws)))) = min 50 (unique_key_count (take 100 raws))"
    by (simp add: first_seen_length unique_key_count_def min.commute)
  with ml store show ?thesis
    by (simp add: find_matching_doc_meta_def cursor_limit_def)
qed

lemma find_matching_doc_meta_same_key:
  assumes store: "find_meta st query = Inr raws"
      and ne: "raws \<noteq> []"
      and same: "\<forall>d\<in>set raws. doc_key d = Some k"
  shows "find_matching_doc_meta st query limit
         = \<lparr> m_count = 1, m_documents = [doc_candidate (hd raws)], m_error = None \<rparr>"
proof -
  from ne obtain d ds where raws: "raws = d # ds" by (cases raws) auto
  obtain ds' where cl: "cursor_limit (limit * 2) raws = d # ds'" and sub: "set ds' \<subseteq> set ds"
  proof (cases "limit * 2")
    case 0
    then have "cursor_limit (limit * 2) raws = d # ds" by (simp add: cursor_limit_def raws)
    then show ?thesis using that by blast
  next
    case (Suc m)
    then have "cursor_limit (limit * 2) raws = d # take m ds" by (simp add: cursor_limit_def raws)
    moreover have "set (take m ds) \<subseteq> set ds" by (rule set_take_subset)
    ultimately show ?thesis using that by blast
  qed
  have "\<forall>x\<in>set (d # ds'). doc_key x = Some k" using same sub raws by auto
  then have "meta_loop limit {} [] (d # ds') = Inr [doc_candidate d]" by (rule meta_loop_same_key)
  with store cl raws show ?thesis by (simp add: find_matching_doc_meta_def)
qed

lemma doc_candidate_id: "doc_id (doc_candidate d) = rd_id d"
  by (simp add: doc_candidate_def candidate_of_def split: sum.splits)

lemma unique_key_count_pos: "0 < unique_key_count raws \<Longrightarrow> raws \<noteq> []"
  by (auto simp: unique_key_count_def)

text \<open>
  C1 (as amended): for every lookup query that the store answers without an exception and
  whose records have readable, hashable key fields, the resolver deduplicates the raw
  records the cursor yields (the first 100 in schedule order) by the key tuple (carrier,
  flightNumber, dateOfOrigin, startStation, endStation): any number \<open>N \<ge> 1\<close> of raw
  records sharing one key gives exactly 1 candidate, and the count of candidates is the
  number of distinct keys, at most 50. It then decides on that count: zero gives the 404
  error; exactly one gives the record fetched by the candidate's handle when that fetch
  returns a non-empty record, and the 404 error \<^verbatim>\<open>Document not found\<close> when it returns
  nothing or an empty record; two or more give the route-selection payload with the count,
  the whole candidate list and the original query.
\<close>

theorem resolver_classification:
  assumes store: "find_meta st query = Inr raws"
      and wf: "\<forall>d\<in>set raws. doc_key d \<noteq> None"
  shows "(raws \<noteq> [] \<and> (\<forall>d\<in>set raws. doc_key d = Some k)
            \<longrightarrow> m_count (find_matching_doc_meta st query limit) = 1)
       \<and> m_count (find_matching_doc_meta st query 50) = min 50 (unique_key_count (take 100 raws))
       \<and> (unique_key_count (take 100 raws) = 0
            \<longrightarrow> resolve_lookup st query proj msg = RespError msg 404)
       \<and> (unique_key_count (take 100 raws) = 1
            \<longrightarrow> resolve_lookup st query proj msg =
                  (case get_document_by_id st (rd_id (hd raws)) proj of
                     None \<Rightarrow> RespError ''Document not found'' 404
                   | Some full_doc \<Rightarrow>
                       if full_doc = [] then RespError ''Document not found'' 404
                       else RespOk (JObj full_doc)))
       \<and> (2 \<le> unique_key_count (take 100 raws)
            \<longrightarrow> resolve_lookup st query proj msg =
                  RespOk (route_selection_payload
                            (min 50 (unique_key_count (take 100 raws)))
                            (take 50 (map doc_candidate (first_seen {} (take 100 raws))))
                            query))"
proof -
  let ?n = "unique_key_count (take 100 raws)"
  let ?docs = "take 50 (map doc_candidate (first_seen {} (take 100 raws)))"
  have meta: "find_matching_doc_meta st query 50
         = \<lparr> m_count = min 50 ?n, m_documents = ?docs, m_error = None \<rparr>"
    using store wf by (rule find_matching_doc_meta_dedup)
  have same: "raws \<noteq> [] \<and> (\<forall>d\<in>set raws. doc_key d = Some k)
            \<longrightarrow> m_count (find_matching_doc_meta st query limit) = 1"
    using find_matching_doc_meta_same_key[OF store, of k limit] by auto
  have zero: "?n = 0 \<longrightarrow> resolve_lookup st query proj msg = RespError msg 404"
    using meta by (simp add: resolve_lookup_def)
  have one: "?n = 1 \<longrightarrow> resolve_lookup st query proj msg =
                  (case get_document_by_id st (rd_id (hd raws)) proj of
                     None \<Rightarrow> RespError ''Document not found'' 404
                   | Some full_doc \<Rightarrow>
                       if full_doc = [] then RespError ''Document not found'' 404
                       else RespOk (JObj full_doc))"
  proof
    assume n1: "?n = 1"
    then have "take 100 raws \<noteq> []" using unique_key_count_pos[of "take 100 raws"] by simp
    then obtain d ds where raws: "raws = d # ds" by (cases raws) auto
    then have t: "take 100 raws = d # take 99 ds" by simp
    have "first_seen {} (take 100 raws) = d # first_seen {doc_key d} (take 99 ds)"
      unfolding t by simp
    then obtain cs where docs: "?docs = doc_candidate d # cs" by simp
    show "resolve_lookup st query proj msg =
                  (case get_document_by_id st (rd_id (hd raws)) proj of
                     None \<Rightarrow> RespError ''Document not found'' 404
                   | Some full_doc \<Rightarrow>
                       if full_doc = [] then RespError ''Document not found'' 404
                       else RespOk (JObj full_doc))"
      using meta n1 docs raws by (simp add: resolve_lookup_def doc_candidate_id)
  qed
  have many: "2 \<le> ?n \<longrightarrow> resolve_lookup st query proj msg =
                  RespOk (route_selection_payload (min 50 ?n) ?docs query)"
  proof
    assume "2 \<le> ?n"
    then have "min 50 ?n \<noteq> 0" "min 50 ?n \<noteq> 1" by auto
    then show "resolve_lookup st query proj msg =
                  RespOk (route_selection_payload (min 50 ?n) ?docs query)"
      using meta by (simp add: resolve_lookup_def Let_def)
  qed
  from meta have "m_count (find_matching_doc_meta st query 50) = min 50 ?n" by simp
  with same zero one many show ?thesis by blast
qed

theorem resolver_classification_witness:
  "resolve_lookup (example_store []) (make_query ''6E'' (Some 215) (Some ''2024-06-23'') None None)
       basic_info_projection ''No matching document found.''
     = RespError ''No matching document found.'' 404
   \<and> m_count (find_matching_doc_meta
        (example_store [example_leg ''a1'' ''DEL'' ''BOM'' 1, example_leg ''a2'' ''DEL'' ''BOM'' 2,
                        example_leg ''a3'' ''DEL'' ''BOM'' 3])
        (make_query ''6E'' (Some 215) (Some ''2024-06-23'') None None) 50) = 1
   \<and> resolve_lookup
        (example_store [example_leg ''a1'' ''DEL'' ''BOM'' 1, example_leg ''a2'' ''DEL'' ''BOM'' 2,
                        example_leg ''a3'' ''DEL'' ''BOM'' 3])
        (make_query ''6E'' (Some 215) (Some ''2024-06-23'') None None)
        basic_info_projection ''No matching document found.''
     = RespOk (JObj (rd_body (example_leg ''a1'' ''DEL'' ''BOM'' 1)))
   \<and> resolve_lookup
        (example_store [example_leg ''a1'' ''DEL'' ''BOM'' 1, example_leg ''b1'' ''SXR'' ''BOM'' 1])
        (make_query ''6E'' (Some 215) (Some ''2024-06-23'') None None)
        basic_info_projection ''No matching document found.''
     = RespOk (route_selection_payload 2
         [doc_candidate (example_leg ''a1'' ''DEL'' ''BOM'' 1),
          doc_candidate (example_leg ''b1'' ''SXR'' ''BOM'' 1)]
         (make_query ''6E'' (Some 215) (Some ''2024-06-23'') None None))"
proof -
  let ?q = "make_query ''6E'' (Some 215) (Some ''2024-06-23'') None None"
  let ?r1 = "[example_leg ''a1'' ''DEL'' ''BOM'' 1, example_leg ''a2'' ''DEL'' ''BOM'' 2,
              example_leg ''a3'' ''DEL'' ''BOM'' 3]"
  let ?r2 = "[example_leg ''a1'' ''DEL'' ''BOM'' 1, example_leg ''b1'' ''SXR'' ''BOM'' 1]"
  let ?k = "(JStr ''6E'', JInt 215, JStr ''2024-06-23'', JStr ''DEL'', JStr ''BOM'')"
  have s0: "find_meta (example_store []) ?q = Inr []" by (simp add: example_store_def)
  have s1: "find_meta (example_store ?r1) ?q = Inr ?r1" by (simp add: example_store_def)
  have s2: "find_meta (example_store ?r2) ?q = Inr ?r2" by (simp add: example_store_def)
  have w0: "\<forall>d\<in>set ([] :: raw_doc list). doc_key d \<noteq> None" by simp
  have k1: "\<forall>d\<in>set ?r1. doc_key d = Some ?k" by code_simp
  then have w1: "\<forall>d\<in>set ?r1. doc_key d \<noteq> None" by simp
  have w2: "\<forall>d\<in>set ?r2. doc_key d \<noteq> None" by code_simp
  have n0: "unique_key_count (take 100 ([] :: raw_doc list)) = 0" by (simp add: unique_key_count_def)
  have n1: "unique_key_count (take 100 ?r1) = 1" by code_simp
  have n2: "unique_key_count (take 100 ?r2) = 2" by code_simp
  have g1: "get_document_by_id (example_store ?r1) (rd_id (hd ?r1)) basic_info_projection
            = Some (rd_body (example_leg ''a1'' ''DEL'' ''BOM'' 1))" by code_simp
  have ne1: "rd_body (example_leg ''a1'' ''DEL'' ''BOM'' 1) \<noteq> []" by (simp add: example_leg_def)
  have d2: "take 50 (map doc_candidate (first_seen {} (take 100 ?r2)))
            = [doc_candidate (example_leg ''a1'' ''DEL'' ''BOM'' 1),
               doc_candidate (example_leg ''b1'' ''SXR'' ''BOM'' 1)]" by code_simp
  note T0 = resolver_classification [OF s0 w0, where k = ?k and limit = 50
               and proj = basic_info_projection and msg = "''No matching document found.''"]
  note T1 = resolver_classification [OF s1 w1, where k = ?k and limit = 50
               and proj = basic_info_projection and msg = "''No matching document found.''"]
  note T2 = resolver_classification [OF s2 w2, where k = ?k and limit = 50
               and proj = basic_info_projection and msg = "''No matching document found.''"]
  have c0: "resolve_lookup (example_store []) ?q basic_info_projection ''No matching document found.''
            = RespError ''No matching document found.'' 404"
    using T0 n0 by blast
  have c1a: "m_count (find_matching_doc_meta (example_store ?r1) ?q 50) = 1"
    using T1 k1 by blast
  have "resolve_lookup (example_store ?r1) ?q basic_info_projection ''No matching document found.''
        = (case get_document_by_id (example_store ?r1) (rd_id (hd ?r1)) basic_info_projection of
                     None \<Rightarrow> RespError ''Document not found'' 404
                   | Some full_doc \<Rightarrow>
                       if full_doc = [] then RespError ''Document not found'' 404
                       else RespOk (JObj full_doc))"
    using T1 n1 by blast
  then have c1b: "resolve_lookup (example_store ?r1) ?q basic_info_projection ''No matching document found.''
        = RespOk (JObj (rd_body (example_leg ''a1'' ''DEL'' ''BOM'' 1)))"
    using ne1 by (simp only: g1 option.case if_False)
  have "2 \<le> unique_key_count (take 100 ?r2)" by (simp only: n2)
  with T2 have "resolve_lookup (example_store ?r2) ?q basic_info_projection ''No matching document found.''
        = RespOk (route_selection_payload (min 50 (unique_key_count (take 100 ?r2)))
             (take 50 (map doc_candidate (first_seen {} (take 100 ?r2)))) ?q)"
    by blast
  then have c2: "resolve_lookup (example_store ?r2) ?q basic_info_projection ''No matching document found.''
        = RespOk (route_selection_payload 2
             [doc_candidate (example_leg ''a1'' ''DEL'' ''BOM'' 1),
              doc_candidate (example_leg ''b1'' ''SXR'' ''BOM'' 1)] ?q)"
    by (simp only: n2 d2) simp
  from c0 c1a c1b c2 show ?thesis by blast
qed

text \<open>
  The claim as first stated fails: a store holding one document that has an identifier and
  no other field, looked up with every argument empty, gives exactly one candidate and the
  404 error, not a resolved outcome.
\<close>

theorem resolver_single_candidate_counterexample:
  "m_count (find_matching_doc_meta (example_store [bare_doc]) [] 50) = 1
   \<and> get_flight_basic_info (example_store [bare_doc]) [] [] [] (Some []) (Some [])
       = RespError ''Document not found'' 404"
  by code_simp

section \<open>Properties of the date check in the lookups\<close>

lemma basic_info_rejects_invalid_date:
  "date_of_origin \<noteq> [] \<Longrightarrow> validate_date date_of_origin = None
   \<Longrightarrow> get_flight_basic_info st carrier flight_number date_of_origin start_station end_station
       = RespError ''Invalid date_of_origin format. Expected YYYY-MM-DD or common date formats'' 400"
  by (simp add: get_flight_basic_info_def)

lemma equipment_info_ignores_invalid_date:
  "validate_date date_of_origin = None
   \<Longrightarrow> get_equipment_info st carrier flight_number date_of_origin start_station end_station
       = get_equipment_info st carrier flight_number [] start_station end_station"
  by (simp add: get_equipment_info_def)

lemma validate_examples:
  "validate_date ''23-06-2024'' = Some ''2024-06-23''" "validate_date ''2024-13-45'' = None"
  by code_simp+

text \<open>
  C4: a date in a recognized format is normalized to \<^verbatim>\<open>YYYY-MM-DD\<close>
  (\<^verbatim>\<open>23-06-2024\<close> gives \<^verbatim>\<open>2024-06-23\<close>); a date in no recognized format
  (\<^verbatim>\<open>2024-13-45\<close>) gives \<^verbatim>\<open>None\<close> and must end the lookup with code 400. The
  basic-info lookup does so. The equipment lookup does not: it answers as if no date had
  been given, here with the record of a flight found without the date.
\<close>

theorem invalid_date_not_rejected_by_equipment_lookup:
  "validate_date ''23-06-2024'' = Some ''2024-06-23''
   \<and> validate_date ''2024-13-45'' = None
   \<and> get_flight_basic_info st carrier flight_number ''2024-13-45'' start_station end_station
       = RespError ''Invalid date_of_origin format. Expected YYYY-MM-DD or common date formats'' 400
   \<and> get_equipment_info st carrier flight_number ''2024-13-45'' start_station end_station
       = get_equipment_info st carrier flight_number [] start_station end_station
   \<and> get_equipment_info (example_store [example_leg ''a1'' ''DEL'' ''BOM'' 1])
         ''6E'' ''215'' ''2024-13-45'' None None
       = RespOk (JObj (rd_body (example_leg ''a1'' ''DEL'' ''BOM'' 1)))"
proof -
  have "get_equipment_info (example_store [example_leg ''a1'' ''DEL'' ''BOM'' 1])
         ''6E'' ''215'' ''2024-13-45'' None None
       = RespOk (JObj (rd_body (example_leg ''a1'' ''DEL'' ''BOM'' 1)))"
    by code_simp
  then show ?thesis
    using validate_examples
      basic_info_rejects_invalid_date[of "''2024-13-45''" st carrier flight_number start_station end_station]
      equipment_info_ignores_invalid_date[of "''2024-13-45''" st carrier flight_number start_station end_station]
    by simp
qed

section \<open>Properties of the raw filter query\<close>








section \<open>Properties of the filter rewriting\<close>

lemma normalize_entry_other:
  "k \<noteq> key \<Longrightarrow> map_of (normalize_entry nf (key, val)) k = map_of nf k"
  by (auto simp: normalize_entry_def update_conv' split: json.splits delay_scan.splits)

lemma normalize_entry_plain:
  "py_contains ''flightNumber'' key \<or> \<not> py_contains ''delays.total'' key
   \<Longrightarrow> map_of (normalize_entry nf (key, val)) key = Some val"
  by (auto simp: normalize_entry_def update_conv')

lemma normalize_entry_delay:
  "\<not> py_contains ''flightNumber'' key \<Longrightarrow> py_contains ''delays.total'' key
   \<Longrightarrow> scan_delay_ops [] ops = Replaced v
   \<Longrightarrow> map_of (normalize_entry nf (key, JObj ops)) key = Some v"
  by (simp add: normalize_entry_def update_conv')

lemma foldl_normalize_other:
  "k \<notin> fst ` set pf \<Longrightarrow> map_of (foldl normalize_entry nf pf) k = map_of nf k"
proof (induction pf arbitrary: nf)
  case Nil
  then show ?case by simp
next
  case (Cons e pf)
  obtain key val where e: "e = (key, val)" by (cases e)
  with Cons.prems have "k \<noteq> key" "k \<notin> fst ` set pf" by auto
  with Cons.IH[of "normalize_entry nf e"] e show ?case
    by (simp add: normalize_entry_other)
qed

lemma foldl_normalize_entry:
  assumes "distinct (map fst pf)" "(k, v) \<in> set pf"
      and "\<And>nf. map_of (normalize_entry nf (k, v)) k = Some r"
  shows "map_of (foldl normalize_entry nf pf) k = Some r"
  using assms(1,2)
proof (induction pf arbitrary: nf)
  case Nil
  then show ?case by simp
next
  case (Cons e pf)
  show ?case
  proof (cases "e = (k, v)")
    case True
    with Cons.prems have "k \<notin> fst ` set pf" by (auto simp: image_iff)
    then have "map_of (foldl normalize_entry (normalize_entry nf e) pf) k
               = map_of (normalize_entry nf e) k"
      by (rule foldl_normalize_other)
    with True assms(3) show ?thesis by simp
  next
    case False
    with Cons.prems have "distinct (map fst pf)" "(k, v) \<in> set pf" by auto
    from Cons.IH[OF this] show ?thesis by simp
  qed
qed

lemma non_delay_entries_pass_through:
  assumes "distinct (map fst pf)" "(k, v) \<in> set pf"
      and "py_contains ''flightNumber'' k \<or> \<not> py_contains ''delays.total'' k"
  shows "map_of (normalize_filter pf) k = Some v"
  unfolding normalize_filter_def
  using assms(1,2) by (rule foldl_normalize_entry) (simp add: normalize_entry_plain assms(3))

lemma gt_zero_entry_rewritten:
  assumes "distinct (map fst pf)" "(k, JObj ((''$gt'', z) # others)) \<in> set pf" "py_eq_zero z"
      and "\<not> py_contains ''flightNumber'' k" "py_contains ''delays.total'' k"
  shows "map_of (normalize_filter pf) k = Some (JObj [(''$nin'', JArr zero_delay_sentinels)])"
proof -
  have "scan_delay_ops [] ((''$gt'', z) # others) = Replaced (JObj [(''$nin'', JArr zero_delay_sentinels)])"
    using assms(3) by (simp add: delay_exclusion_def zero_delay_sentinels_def)
  then have "\<And>nf. map_of (normalize_entry nf (k, JObj ((''$gt'', z) # others))) k
             = Some (JObj [(''$nin'', JArr zero_delay_sentinels)])"
    using assms(4,5) by (rule normalize_entry_delay[rotated 2])
  with assms(1,2) show ?thesis unfolding normalize_filter_def by (rule foldl_normalize_entry)
qed

lemma eq_zero_entry_rewritten:
  assumes "distinct (map fst pf)" "(k, JObj ((''$eq'', z) # others)) \<in> set pf" "py_eq_zero z"
      and "\<not> py_contains ''flightNumber'' k" "py_contains ''delays.total'' k"
  shows "map_of (normalize_filter pf) k = Some (JObj [(''$in'', JArr [JStr ''PT0H0M'', JStr ''00:00''])])"
proof -
  have "scan_delay_ops [] ((''$eq'', z) # others) = Replaced (JObj [(''$in'', JArr [JStr ''PT0H0M'', JStr ''00:00''])])"
    using assms(3) by (simp add: delay_inclusion_def)
  then have "\<And>nf. map_of (normalize_entry nf (k, JObj ((''$eq'', z) # others))) k
             = Some (JObj [(''$in'', JArr [JStr ''PT0H0M'', JStr ''00:00''])])"
    using assms(4,5) by (rule normalize_entry_delay[rotated 2])
  with assms(1,2) show ?thesis unfolding normalize_filter_def by (rule foldl_normalize_entry)
qed

text \<open>
  C7: on the delay-total field, \<^verbatim>\<open>$gt: 0\<close> becomes \<^verbatim>\<open>$nin\<close> of the zero-delay
  sentinels and \<^verbatim>\<open>$eq: 0\<close> must become \<^verbatim>\<open>$in\<close> of the same sentinels; other entries
  pass through. The code rewrites \<^verbatim>\<open>$eq: 0\<close> to \<^verbatim>\<open>$in\<close> of two of the four
  sentinels only.
\<close>

theorem delay_eq_zero_rewrite:
  "normalize_filter [(''flightLegState.delays.total'', JObj [(''$gt'', JInt 0)])]
     = [(''flightLegState.delays.total'', JObj [(''$nin'', JArr zero_delay_sentinels)])]
   \<and> normalize_filter [(''flightLegState.delays.total'', JObj [(''$eq'', JInt 0)])]
     = [(''flightLegState.delays.total'', JObj [(''$in'', JArr [JStr ''PT0H0M'', JStr ''00:00''])])]
   \<and> JArr [JStr ''PT0H0M'', JStr ''00:00''] \<noteq> JArr zero_delay_sentinels
   \<and> normalize_filter [(''flightLegState.carrier'', JStr ''6E''), (''flightLegState.flightNumber'', JStr ''215'')]
     = [(''flightLegState.carrier'', JStr ''6E''), (''flightLegState.flightNumber'', JStr ''215'')]"
  by code_simp

section \<open>Two scenarios across components\<close>

text \<open>The route-selection envelope of a lookup is what stops the executor's run.\<close>

lemma route_selection_payload_detected:
  "needs_route_selection tool (response_json (RespOk (route_selection_payload n docs query)))"
  by (simp add: needs_route_selection_def route_candidate_def route_selection_payload_def
        dict_get_def dict_get_default_def)

text \<open>Two legs delayed by \<^verbatim>\<open>PT1H3M\<close> and \<^verbatim>\<open>00:45\<close> total 108 minutes, read as
  \<^verbatim>\<open>1 hour 48 minutes\<close>.\<close>

lemma total_delay_scenario:
  "parse_iso_duration_to_minutes (Some ''PT1H3M'') = Inr 63
   \<and> parse_iso_duration_to_minutes (Some ''00:45'') = Inr 45
   \<and> format_minutes_to_readable (63 + 45) = ''1 hour 48 minutes''"
  by code_simp

end
